theory Spec2Isabelle
  imports Complex_Main "HOL-Library.Word" "HOL-Library.Multiset"
begin

unbundle bit_operations_syntax

section \<open>Python values, exceptions and strings\<close>

text \<open>
  The repository is Python. Exceptions are values of \<open>py_exc\<close>; a call that may raise
  returns \<open>py_exc + 'a\<close> with \<open>Inl\<close> for the raised exception. Only the classes the
  code can meet are listed. \<open>IOError\<close> is Python 3's alias of \<open>OSError\<close>, and
  \<open>FileNotFoundError\<close> is a subclass of it; \<open>struct.error\<close> is a direct subclass of
  \<open>Exception\<close>; \<open>SystemExit\<close> and \<open>KeyboardInterrupt\<close> derive from \<open>BaseException\<close> only.
\<close>

datatype py_exc =
    KeyError string
  | TypeError
  | ValueError string
  | OverflowError string
  | ZeroDivisionError
  | FileNotFoundError string
  | OSError string
  | StructError string
  | Cv2Error
  | SystemExit
  | KeyboardInterrupt

text \<open>\<open>isinstance(e, Exception)\<close>: what an \<open>except Exception\<close> clause catches.\<close>

fun is_Exception :: "py_exc \<Rightarrow> bool" where
  "is_Exception SystemExit = False"
| "is_Exception KeyboardInterrupt = False"
| "is_Exception _ = True"

definition bind_exc :: "py_exc + 'a \<Rightarrow> ('a \<Rightarrow> py_exc + 'b) \<Rightarrow> py_exc + 'b" where
  "bind_exc m f = (case m of Inl e \<Rightarrow> Inl e | Inr v \<Rightarrow> f v)"

type_synonym byte = "8 word"
type_synonym f32 = "32 word"
type_synonym f64 = "64 word"
type_synonym path = string

subsection \<open>Decimal rendering of integers\<close>

definition digit_char :: "nat \<Rightarrow> char" where
  "digit_char d = char_of (48 + d)"

fun digits10 :: "nat \<Rightarrow> string" where
  "digits10 n = (if n < 10 then [digit_char n] else digits10 (n div 10) @ [digit_char (n mod 10)])"

declare digits10.simps [simp del]

text \<open>\<open>str(i)\<close> for an int.\<close>

definition py_str_int :: "int \<Rightarrow> string" where
  "py_str_int i = (if i < 0 then ''-'' @ digits10 (nat (- i)) else digits10 (nat i))"

text \<open>
  \<open>format(i, "0Wd")\<close>: a \<open>0\<close> before the width means fill character \<open>0\<close> with the
  sign-aware alignment \<open>=\<close>, so the padding goes between the sign and the digits and
  the sign counts towards the width.
\<close>

definition format_0wd :: "nat \<Rightarrow> int \<Rightarrow> string" where
  "format_0wd w i =
     (let sign = (if i < 0 then ''-'' else '''');
          body = digits10 (nat \<bar>i\<bar>)
      in sign @ replicate (w - length sign - length body) (CHR ''0'') @ body)"

text \<open>\<open>os.path.join(a, b)\<close> on POSIX, for two components.\<close>

definition os_path_join :: "path \<Rightarrow> path \<Rightarrow> path" where
  "os_path_join a b =
     (if b \<noteq> [] \<and> hd b = CHR ''/'' then b
      else if a = [] \<or> last a = CHR ''/'' then a @ b
      else a @ ''/'' @ b)"

section \<open>Floats: IEEE-754 binary64 and binary32 bit patterns\<close>

text \<open>
  A Python float is an IEEE-754 binary64 value, modelled by its bit pattern (\<open>f64\<close>):
  1 sign bit, 11 exponent bits, 52 fraction bits. The \<open>f\<close> format of \<open>struct\<close> stores
  a binary32 value (\<open>f32\<close>): 1 sign bit, 8 exponent bits, 23 fraction bits.
\<close>

definition f64_sign :: "f64 \<Rightarrow> nat" where
  "f64_sign x = unat (drop_bit 63 x)"

definition f64_exp :: "f64 \<Rightarrow> nat" where
  "f64_exp x = unat (take_bit 11 (drop_bit 52 x))"

definition f64_frac :: "f64 \<Rightarrow> nat" where
  "f64_frac x = unat (take_bit 52 x)"

definition f32_sign :: "f32 \<Rightarrow> nat" where
  "f32_sign y = unat (drop_bit 31 y)"

definition f32_exp :: "f32 \<Rightarrow> nat" where
  "f32_exp y = unat (take_bit 8 (drop_bit 23 y))"

definition f32_frac :: "f32 \<Rightarrow> nat" where
  "f32_frac y = unat (take_bit 23 y)"

definition f64_is_inf :: "f64 \<Rightarrow> bool" where
  "f64_is_inf x \<longleftrightarrow> f64_exp x = 2047 \<and> f64_frac x = 0"

definition f64_is_nan :: "f64 \<Rightarrow> bool" where
  "f64_is_nan x \<longleftrightarrow> f64_exp x = 2047 \<and> f64_frac x \<noteq> 0"

definition f64_is_finite :: "f64 \<Rightarrow> bool" where
  "f64_is_finite x \<longleftrightarrow> f64_exp x \<noteq> 2047"

definition f32_is_inf :: "f32 \<Rightarrow> bool" where
  "f32_is_inf y \<longleftrightarrow> f32_exp y = 255 \<and> f32_frac y = 0"

definition f32_is_nan :: "f32 \<Rightarrow> bool" where
  "f32_is_nan y \<longleftrightarrow> f32_exp y = 255 \<and> f32_frac y \<noteq> 0"

text \<open>
  \<open>round_half_even m k\<close> is \<open>m / 2^k\<close> rounded to the nearest integer, ties to the even
  one: the IEEE default rounding, applied to a significand that loses its \<open>k\<close> low bits.
\<close>

definition round_half_even :: "nat \<Rightarrow> nat \<Rightarrow> nat" where
  "round_half_even m k =
     (if k = 0 then m
      else let q = m div 2 ^ k; r = m mod 2 ^ k; h = 2 ^ (k - 1)
           in if h < r \<or> (r = h \<and> odd q) then q + 1 else q)"

fun bit_length :: "nat \<Rightarrow> nat" where
  "bit_length n = (if n = 0 then 0 else Suc (bit_length (n div 2)))"

declare bit_length.simps [simp del]

text \<open>
  The C conversion \<open>(float) x\<close> that \<open>struct.pack\<close> applies to every \<open>f\<close> argument.
  A double with exponent field \<open>e > 896\<close> is in the normal range of binary32: its 53-bit
  significand loses 29 bits, and a carry out of the rounding moves into the exponent field
  (\<open>255\<close> and above is infinity). A smaller double becomes a binary32 subnormal or zero, in
  units of \<open>2^-149\<close>. A NaN keeps its sign and the top fraction bits, with the quiet bit set.
\<close>

definition double_to_single :: "f64 \<Rightarrow> f32" where
  "double_to_single x =
     (let s = f64_sign x; e = f64_exp x; f = f64_frac x;
          r = (if e = 2047 then (if f = 0 then 255 * 2 ^ 23
                                 else 255 * 2 ^ 23 + 2 ^ 22 + (f div 2 ^ 29) mod 2 ^ 22)
               else if 896 < e then
                 (let t = (e - 897) * 2 ^ 23 + round_half_even (2 ^ 52 + f) 29
                  in if 255 * 2 ^ 23 \<le> t then 255 * 2 ^ 23 else t)
               else if e = 0 then round_half_even f 925
               else round_half_even (2 ^ 52 + f) (926 - e))
      in of_nat (s * 2 ^ 31 + r))"

text \<open>The exact widening \<open>(double) y\<close> that \<open>struct.unpack\<close> applies to every \<open>f\<close> field.\<close>

definition single_to_double :: "f32 \<Rightarrow> f64" where
  "single_to_double y =
     (let s = f32_sign y; e = f32_exp y; f = f32_frac y;
          r = (if e = 255 then 2047 * 2 ^ 52 + f * 2 ^ 29
               else if e = 0 then
                 (if f = 0 then 0
                  else (bit_length f + 872) * 2 ^ 52 + f * 2 ^ (53 - bit_length f))
               else (e + 896) * 2 ^ 52 + f * 2 ^ 29)
      in of_nat (s * 2 ^ 63 + r))"

text \<open>
  \<open>float(n)\<close> for an int: round to 53 significant bits, ties to even;
  \<open>OverflowError\<close> when the result would reach \<open>2^1024\<close>.
\<close>

definition int_to_double :: "int \<Rightarrow> py_exc + f64" where
  "int_to_double n =
     (let m = nat \<bar>n\<bar>; s = (if n < 0 then 1 else 0 :: nat); b = bit_length m
      in if m = 0 then Inr 0
         else let r = (b + 1021) * 2 ^ 52
                       + (if b \<le> 53 then m * 2 ^ (53 - b) else round_half_even m (b - 53))
              in if 2047 * 2 ^ 52 \<le> r
                 then Inl (OverflowError ''int too large to convert to float'')
                 else Inr (of_nat (s * 2 ^ 63 + r)))"

text \<open>
  \<open>int(x)\<close> and \<open>round(x)\<close> for a float. A finite double is its significand times a power
  of two; \<open>int\<close> drops the fraction, \<open>round\<close> rounds it to the nearest integer, ties to
  the even one. Both raise for a NaN and for an infinity.
\<close>

definition f64_mantissa :: "f64 \<Rightarrow> nat" where
  "f64_mantissa x = (if f64_exp x = 0 then f64_frac x else 2 ^ 52 + f64_frac x)"

definition float_to_int :: "(nat \<Rightarrow> nat \<Rightarrow> nat) \<Rightarrow> f64 \<Rightarrow> py_exc + int" where
  "float_to_int shift x =
     (if f64_is_nan x then Inl (ValueError ''cannot convert float NaN to integer'')
      else if f64_is_inf x then Inl (OverflowError ''cannot convert float infinity to integer'')
      else let m = f64_mantissa x; e = max 1 (f64_exp x);
               mag = (if 1075 \<le> e then m * 2 ^ (e - 1075) else shift m (1075 - e))
           in Inr (if f64_sign x = 1 then - int mag else int mag))"

definition py_int_of_float :: "f64 \<Rightarrow> py_exc + int" where
  "py_int_of_float = float_to_int (\<lambda>m k. m div 2 ^ k)"

definition py_round :: "f64 \<Rightarrow> py_exc + int" where
  "py_round = float_to_int round_half_even"

text \<open>
  \<open>x / 2\<close> for a float: the exponent field goes down by one; a result below the normal
  range loses its last bit, rounded to even; infinities and NaNs stay.
\<close>

definition float_half :: "f64 \<Rightarrow> f64" where
  "float_half x =
     (let e = f64_exp x; mag = e * 2 ^ 52 + f64_frac x;
          half = (if e = 2047 then mag
                  else if 2 \<le> e then mag - 2 ^ 52
                  else round_half_even mag 1)
      in of_nat (f64_sign x * 2 ^ 63 + half))"

text \<open>The values a descriptor dictionary may hold, and the builtin \<open>float(v)\<close>.\<close>

datatype pyval = PyFloat f64 | PyInt int | PyNone

fun py_float :: "pyval \<Rightarrow> py_exc + f64" where
  "py_float (PyFloat x) = Inr x"
| "py_float (PyInt n) = int_to_double n"
| "py_float PyNone = Inl TypeError"

type_synonym pydict = "string \<rightharpoonup> pyval"

definition dict_get :: "pydict \<Rightarrow> string \<Rightarrow> py_exc + pyval" where
  "dict_get d k = (case d k of None \<Rightarrow> Inl (KeyError k) | Some v \<Rightarrow> Inr v)"

section \<open>The struct module, format \<open>!5f\<close>\<close>

definition pack_be32 :: "f32 \<Rightarrow> byte list" where
  "pack_be32 y = [ucast (drop_bit 24 y), ucast (drop_bit 16 y), ucast (drop_bit 8 y), ucast y]"

fun unpack_be32 :: "byte list \<Rightarrow> f32" where
  "unpack_be32 [a, b, c, d] =
     push_bit 24 (ucast a) OR push_bit 16 (ucast b) OR push_bit 8 (ucast c) OR ucast d"
| "unpack_be32 _ = 0"

text \<open>
  CPython's \<open>PyFloat_Pack4\<close>: convert, and raise when a finite double became an infinity.
\<close>

definition PyFloat_Pack4 :: "f64 \<Rightarrow> py_exc + byte list" where
  "PyFloat_Pack4 x =
     (let y = double_to_single x
      in if f32_is_inf y \<and> \<not> f64_is_inf x
         then Inl (OverflowError ''float too large to pack with f format'')
         else Inr (pack_be32 y))"

fun pack_floats :: "f64 list \<Rightarrow> py_exc + byte list" where
  "pack_floats [] = Inr []"
| "pack_floats (x # xs) =
     bind_exc (PyFloat_Pack4 x) (\<lambda>b. bind_exc (pack_floats xs) (\<lambda>bs. Inr (b @ bs)))"

definition struct_pack_5f :: "f64 list \<Rightarrow> py_exc + byte list" where
  "struct_pack_5f xs =
     (if length xs \<noteq> 5 then Inl (StructError ''pack expected 5 items for packing'')
      else pack_floats xs)"

definition PyFloat_Unpack4 :: "byte list \<Rightarrow> f64" where
  "PyFloat_Unpack4 bs = single_to_double (unpack_be32 bs)"

definition struct_unpack_5f :: "byte list \<Rightarrow> py_exc + f64 list" where
  "struct_unpack_5f buf =
     (if length buf \<noteq> 20 then Inl (StructError ''unpack requires a buffer of 20 bytes'')
      else Inr (map (\<lambda>i. PyFloat_Unpack4 (take 4 (drop (4 * i) buf))) [0..<5]))"

section \<open>The file system\<close>

text \<open>
  Files are a map from paths to contents. Directories are implicit: writing a file
  succeeds, and a path exists exactly when a file is stored at it.
\<close>

type_synonym filesystem = "path \<rightharpoonup> byte list"

definition write_file :: "path \<Rightarrow> byte list \<Rightarrow> filesystem \<Rightarrow> filesystem" where
  "write_file p data fs = fs(p \<mapsto> data)"

definition open_read :: "filesystem \<Rightarrow> path \<Rightarrow> py_exc + byte list" where
  "open_read fs p = (case fs p of None \<Rightarrow> Inl (FileNotFoundError p) | Some b \<Rightarrow> Inr b)"

section \<open>utils.py\<close>

definition ELLIPSE_KEYS :: "string list" where
  "ELLIPSE_KEYS = [''center_x'', ''center_y'', ''major_axis'', ''minor_axis'', ''rotation_angle'']"

definition field_float :: "pydict \<Rightarrow> string \<Rightarrow> py_exc + f64" where
  "field_float d k = bind_exc (dict_get d k) py_float"

text \<open>
  The packing step of \<open>save_ellipse\<close>: the five arguments are evaluated left to right,
  then \<open>struct.pack\<close> runs.
\<close>

definition encode_ellipse :: "pydict \<Rightarrow> py_exc + byte list" where
  "encode_ellipse ellipse_params =
     bind_exc (field_float ellipse_params ''center_x'') (\<lambda>cx.
     bind_exc (field_float ellipse_params ''center_y'') (\<lambda>cy.
     bind_exc (field_float ellipse_params ''major_axis'') (\<lambda>major.
     bind_exc (field_float ellipse_params ''minor_axis'') (\<lambda>minor.
     bind_exc (field_float ellipse_params ''rotation_angle'') (\<lambda>angle.
     struct_pack_5f [cx, cy, major, minor, angle])))))"

definition save_ellipse :: "path \<Rightarrow> pydict \<Rightarrow> filesystem \<Rightarrow> (py_exc + unit) \<times> filesystem" where
  "save_ellipse p ellipse_params fs =
     (case encode_ellipse ellipse_params of
        Inl e \<Rightarrow> (Inl e, fs)
      | Inr data \<Rightarrow> (Inr (), write_file p data fs))"

definition load_ellipse :: "path \<Rightarrow> filesystem \<Rightarrow> py_exc + pydict" where
  "load_ellipse p fs =
     bind_exc (open_read fs p) (\<lambda>contents.
     bind_exc (struct_unpack_5f (take 20 contents)) (\<lambda>vals.
     Inr (map_of (zip ELLIPSE_KEYS (map PyFloat vals)))))"

definition annotation_path :: "path \<Rightarrow> int \<Rightarrow> path" where
  "annotation_path annotation_dir idx = annotation_dir @ ''/'' @ format_0wd 5 idx @ ''.bin''"

section \<open>The OpenCV and NumPy calls\<close>

text \<open>
  Images and masks are arrays of 8-bit values with a height and a width. The image codec,
  the resampler, the contour tracer, the ellipse fit and the ellipse drawing belong to
  OpenCV, not to this repository: they are the fields of a record the model takes as a
  parameter. \<open>ellipse\<close> is \<open>cv2.ellipse\<close> for the full sweep from 0 to 360 degrees, with
  the centre, the half axes, the angle, the colour and the thickness; it returns the image
  it has drawn on. \<open>contourArea\<close> returns a non-negative float that is never a NaN; it is
  read as the real number it denotes, so that Python's comparison of two areas is \<open><\<close> on
  reals.
\<close>

record image =
  img_h :: nat
  img_w :: nat
  img_pixels :: "byte list"

type_synonym contour = "(int \<times> int) list"

type_synonym rotated_rect = "(f64 \<times> f64) \<times> (f64 \<times> f64) \<times> f64"

datatype imread_flag = IMREAD_COLOR | IMREAD_GRAYSCALE

record cv_lib =
  imdecode :: "imread_flag \<Rightarrow> byte list \<Rightarrow> image option"
  imencode :: "string \<Rightarrow> image \<Rightarrow> byte list"
  resize_nearest :: "image \<Rightarrow> nat \<times> nat \<Rightarrow> py_exc + image"
  findContours :: "image \<Rightarrow> contour list"
  contourArea :: "contour \<Rightarrow> real"
  fitEllipse :: "contour \<Rightarrow> py_exc + rotated_rect"
  ellipse :: "image \<Rightarrow> int \<times> int \<Rightarrow> int \<times> int \<Rightarrow> f64 \<Rightarrow> nat list \<Rightarrow> int \<Rightarrow> py_exc + image"

text \<open>\<open>np.zeros((h, w), dtype=np.uint8)\<close> and \<open>int(np.sum(img > 0))\<close>.\<close>

definition np_zeros :: "nat \<Rightarrow> nat \<Rightarrow> image" where
  "np_zeros h w = \<lparr>img_h = h, img_w = w, img_pixels = replicate (h * w) 0\<rparr>"

definition count_positive :: "image \<Rightarrow> nat" where
  "count_positive img = length (filter (\<lambda>p. 0 < p) (img_pixels img))"

text \<open>\<open>cv2.imread\<close> returns \<open>None\<close> for a missing or undecodable file; it never raises.\<close>

definition cv_imread :: "cv_lib \<Rightarrow> filesystem \<Rightarrow> path \<Rightarrow> imread_flag \<Rightarrow> image option" where
  "cv_imread cv fs p flag = (case fs p of None \<Rightarrow> None | Some b \<Rightarrow> imdecode cv flag b)"

definition cv_imwrite :: "cv_lib \<Rightarrow> path \<Rightarrow> string \<Rightarrow> image \<Rightarrow> filesystem \<Rightarrow> filesystem" where
  "cv_imwrite cv p ext img fs = write_file p (imencode cv ext img) fs"

definition os_path_exists :: "filesystem \<Rightarrow> path \<Rightarrow> bool" where
  "os_path_exists fs p \<longleftrightarrow> fs p \<noteq> None"

text \<open>
  Python's \<open>max(xs, key=f)\<close>: the running maximum is replaced only by an element whose key
  is strictly greater, so the first of several maximal elements is returned.
\<close>

fun max_key_loop :: "('a \<Rightarrow> 'k::linorder) \<Rightarrow> 'a \<Rightarrow> 'a list \<Rightarrow> 'a" where
  "max_key_loop key best [] = best"
| "max_key_loop key best (x # xs) =
     (if key best < key x then max_key_loop key x xs else max_key_loop key best xs)"

definition py_max_key :: "('a \<Rightarrow> 'k::linorder) \<Rightarrow> 'a list \<Rightarrow> py_exc + 'a" where
  "py_max_key key xs =
     (case xs of
        [] \<Rightarrow> Inl (ValueError ''max() arg is an empty sequence'')
      | x # rest \<Rightarrow> Inr (max_key_loop key x rest))"

text \<open>\<open>draw_oval_on_image\<close> of utils.py: the ellipse is drawn on a copy of the image.\<close>

definition draw_oval_on_image ::
  "cv_lib \<Rightarrow> image \<Rightarrow> f64 \<times> f64 \<Rightarrow> f64 \<times> f64 \<Rightarrow> f64 \<Rightarrow> nat list \<Rightarrow> int \<Rightarrow> py_exc + image" where
  "draw_oval_on_image cv img center axes angle color thickness =
     bind_exc (py_int_of_float (fst center)) (\<lambda>x.
     bind_exc (py_int_of_float (snd center)) (\<lambda>y.
     bind_exc (py_int_of_float (float_half (fst axes))) (\<lambda>a.
     bind_exc (py_int_of_float (float_half (snd axes))) (\<lambda>b.
     ellipse cv img (x, y) (a, b) angle color thickness))))"

section \<open>extractor.py\<close>

definition build_face_mask ::
  "cv_lib \<Rightarrow> filesystem \<Rightarrow> path \<Rightarrow> string \<Rightarrow> (nat \<times> nat) option \<Rightarrow> py_exc + image" where
  "build_face_mask cv fs mask_folder image_id target_sz =
     (let p = os_path_join mask_folder (image_id @ ''_skin.png'')
      in if \<not> os_path_exists fs p then Inl (FileNotFoundError (''Skin mask not found: '' @ p))
         else case cv_imread cv fs p IMREAD_GRAYSCALE of
                None \<Rightarrow> Inl (OSError (''Could not read mask: '' @ p))
              | Some mask_img \<Rightarrow>
                  (case target_sz of
                     None \<Rightarrow> Inr mask_img
                   | Some sz \<Rightarrow> resize_nearest cv mask_img sz))"

definition no_contour_msg :: string where
  "no_contour_msg = ''No contour found in mask.''"

text \<open>The source's message has the sign for "at least" where this one has \<open>>=\<close>.\<close>

definition few_points_msg :: string where
  "few_points_msg = ''Not enough contour points to fit an ellipse (need >= 5).''"

definition fit_ellipse :: "cv_lib \<Rightarrow> image \<Rightarrow> py_exc + (f64 \<times> f64 \<times> f64 \<times> f64 \<times> f64)" where
  "fit_ellipse cv mask_img =
     (let contours = findContours cv mask_img
      in if contours = [] then Inl (ValueError no_contour_msg)
         else bind_exc (py_max_key (contourArea cv) contours) (\<lambda>largest.
              if length largest < 5 then Inl (ValueError few_points_msg)
              else bind_exc (fitEllipse cv largest) (\<lambda>((cx, cy), (major, minor), angle).
                   Inr (cx, cy, major, minor, angle))))"

section \<open>workers.py\<close>

record work_item =
  wi_idx :: int
  wi_image_dir :: path
  wi_mask_dir :: path
  wi_output_dir :: path
  wi_images_per_folder :: int
  wi_save_mask :: bool
  wi_save_overlay :: bool

text \<open>\<open>a // b\<close> on ints: floor division, \<open>ZeroDivisionError\<close> for a zero divisor.\<close>

definition py_floordiv :: "int \<Rightarrow> int \<Rightarrow> py_exc + int" where
  "py_floordiv a b = (if b = 0 then Inl ZeroDivisionError else Inr (a div b))"

text \<open>The clause \<open>except (FileNotFoundError, ValueError, IOError)\<close>.\<close>

fun worker_catches :: "py_exc \<Rightarrow> bool" where
  "worker_catches (FileNotFoundError _) = True"
| "worker_catches (ValueError _) = True"
| "worker_catches (OSError _) = True"
| "worker_catches _ = False"

type_synonym 'r worker_result = "py_exc + (int \<times> 'r option)"

text \<open>The filled ellipse whose pixels are counted, drawn on an empty mask.\<close>

definition filled_ellipse_mask ::
  "cv_lib \<Rightarrow> nat \<Rightarrow> nat \<Rightarrow> f64 \<Rightarrow> f64 \<Rightarrow> f64 \<Rightarrow> f64 \<Rightarrow> f64 \<Rightarrow> py_exc + image" where
  "filled_ellipse_mask cv h w cx cy major minor angle =
     bind_exc (py_round cx) (\<lambda>x.
     bind_exc (py_round cy) (\<lambda>y.
     bind_exc (py_round (float_half major)) (\<lambda>a.
     bind_exc (py_round (float_half minor)) (\<lambda>b.
     ellipse cv (np_zeros h w) (x, y) (a, b) angle [255] (- 1)))))"

text \<open>The two optional artifacts: the mask image and the overlay.\<close>

definition optional_outputs ::
  "cv_lib \<Rightarrow> work_item \<Rightarrow> string \<Rightarrow> image \<Rightarrow> image \<Rightarrow> rotated_rect \<Rightarrow> filesystem
     \<Rightarrow> (py_exc + unit) \<times> filesystem" where
  "optional_outputs cv item image_id img ellipse_mask rect fs =
     (let fs1 = (if wi_save_mask item
                 then cv_imwrite cv
                        (os_path_join (os_path_join (wi_output_dir item) ''oval_masks'')
                           (image_id @ ''_oval_mask.png''))
                        ''.png'' ellipse_mask fs
                 else fs)
      in if wi_save_overlay item
         then (case draw_oval_on_image cv img (fst rect) (fst (snd rect)) (snd (snd rect))
                      [0, 255, 0] 3 of
                 Inl e \<Rightarrow> (Inl e, fs1)
               | Inr overlay \<Rightarrow>
                   (Inr (), cv_imwrite cv
                              (os_path_join (os_path_join (wi_output_dir item) ''overlays'')
                                 (image_id @ ''_overlay.jpg''))
                              ''.jpg'' overlay fs1))
         else (Inr (), fs1))"

definition extract_worker ::
  "cv_lib \<Rightarrow> work_item \<Rightarrow> filesystem \<Rightarrow> pydict worker_result \<times> filesystem" where
  "extract_worker cv item fs =
     (let idx = wi_idx item; image_id = format_0wd 5 idx
      in case py_floordiv idx (wi_images_per_folder item) of
           Inl e \<Rightarrow> (Inl e, fs)
         | Inr folder \<Rightarrow>
      (let mask_folder = os_path_join (wi_mask_dir item) (py_str_int folder);
           img_path = os_path_join (wi_image_dir item) (py_str_int idx @ ''.jpg'')
       in case cv_imread cv fs img_path IMREAD_COLOR of
            None \<Rightarrow> (Inr (idx, None), fs)
          | Some img \<Rightarrow>
       (case bind_exc (build_face_mask cv fs mask_folder image_id (Some (img_w img, img_h img)))
                      (fit_ellipse cv) of
          Inl e \<Rightarrow> if worker_catches e then (Inr (idx, None), fs) else (Inl e, fs)
        | Inr (cx, cy, major, minor, angle) \<Rightarrow>
       (let ellipse_params =
              [''center_x'' \<mapsto> PyFloat cx, ''center_y'' \<mapsto> PyFloat cy,
               ''major_axis'' \<mapsto> PyFloat major, ''minor_axis'' \<mapsto> PyFloat minor,
               ''rotation_angle'' \<mapsto> PyFloat angle];
            bin_path = annotation_path (wi_output_dir item) idx
        in case save_ellipse bin_path ellipse_params fs of
             (Inl e, fs1) \<Rightarrow> (Inl e, fs1)
           | (Inr u, fs1) \<Rightarrow>
        (case filled_ellipse_mask cv (img_h img) (img_w img) cx cy major minor angle of
           Inl e \<Rightarrow> (Inl e, fs1)
         | Inr ellipse_mask \<Rightarrow>
        (let num_pixels = count_positive ellipse_mask
         in case optional_outputs cv item image_id img ellipse_mask
                   ((cx, cy), (major, minor), angle) fs1 of
              (Inl e, fs2) \<Rightarrow> (Inl e, fs2)
            | (Inr u, fs2) \<Rightarrow>
                (Inr (idx, Some (ellipse_params(''num_pixels'' \<mapsto> PyInt (int num_pixels)))),
                 fs2)))))))"

section \<open>parallel.py\<close>

text \<open>
  The pool runs every submitted call; \<open>as_completed\<close> hands the futures back in some
  order, which the model takes as the list \<open>order\<close> of positions in \<open>work_items\<close>
  (a permutation of \<open>[0..<length work_items]\<close>). The calls act on the shared state
  (the file system) one after the other in that order. \<open>run_all\<close> is the pool: it pairs
  every item with what \<open>future.result()\<close> will return or raise for it. The size of the
  pool and the progress bar have no part in what is returned and are left out, and so is a
  pool that fails to start.
\<close>

type_synonym ('i, 's, 'r) worker = "'i \<Rightarrow> 's \<Rightarrow> 'r worker_result \<times> 's"

fun run_all :: "('i, 's, 'r) worker \<Rightarrow> 'i list \<Rightarrow> 's \<Rightarrow> ('i \<times> 'r worker_result) list \<times> 's" where
  "run_all worker_fn [] s = ([], s)"
| "run_all worker_fn (item # rest) s =
     (case worker_fn item s of (out, s1) \<Rightarrow>
        (case run_all worker_fn rest s1 of (outs, s2) \<Rightarrow> ((item, out) # outs, s2)))"

text \<open>
  The body of the loop over the completed futures. \<open>except Exception\<close> catches what
  \<open>is_Exception\<close> accepts; anything else leaves the loop and the function.
\<close>

fun collect ::
  "('i \<times> 'r worker_result) list \<Rightarrow> (int \<times> 'r) list \<Rightarrow> 'i list
     \<Rightarrow> py_exc + ((int \<times> 'r) list \<times> 'i list)" where
  "collect [] results failed = Inr (results, failed)"
| "collect ((item, Inr (idx, None)) # rest) results failed =
     collect rest results (failed @ [item])"
| "collect ((item, Inr (idx, Some result)) # rest) results failed =
     collect rest (results @ [(idx, result)]) failed"
| "collect ((item, Inl exc) # rest) results failed =
     (if is_Exception exc then collect rest results (failed @ [item]) else Inl exc)"

definition run_parallel ::
  "nat list \<Rightarrow> 'i list \<Rightarrow> ('i, 's, 'r) worker \<Rightarrow> 's
     \<Rightarrow> (py_exc + ((int \<times> 'r) list \<times> 'i list)) \<times> 's" where
  "run_parallel order work_items worker_fn s =
     (case run_all worker_fn (map (\<lambda>i. work_items ! i) order) s of
        (outs, s1) \<Rightarrow> (collect outs [] [], s1))"

definition completion_order :: "nat list \<Rightarrow> 'i list \<Rightarrow> bool" where
  "completion_order order work_items \<longleftrightarrow> mset order = mset [0..<length work_items]"

section \<open>run.py\<close>

record config =
  cfg_image_dir :: path
  cfg_mask_dir :: path
  cfg_output_dir :: path
  cfg_images_per_folder :: int
  cfg_start :: int
  cfg_end :: int
  cfg_save_masks :: bool
  cfg_save_overlays :: bool

text \<open>
  \<open>cmd_extract\<close> reads its parameters from the configuration, builds one work item for
  each index of \<open>range(start, end)\<close>, runs the batch and writes the failure log; what it
  prints is left out. \<open>json.dump\<close> of a list of ints is the text below, stored as bytes
  by the text-mode file.
\<close>

fun join_strings :: "string \<Rightarrow> string list \<Rightarrow> string" where
  "join_strings sep [] = []"
| "join_strings sep [x] = x"
| "join_strings sep (x # y # ys) = x @ sep @ join_strings sep (y # ys)"

definition json_dump_ints :: "int list \<Rightarrow> string" where
  "json_dump_ints xs = ''['' @ join_strings '', '' (map py_str_int xs) @ '']''"

definition encode_text :: "string \<Rightarrow> byte list" where
  "encode_text s = map (\<lambda>c. of_char c) s"

definition build_work :: "config \<Rightarrow> work_item list" where
  "build_work cfg =
     map (\<lambda>idx. \<lparr>wi_idx = idx, wi_image_dir = cfg_image_dir cfg, wi_mask_dir = cfg_mask_dir cfg,
                 wi_output_dir = cfg_output_dir cfg,
                 wi_images_per_folder = cfg_images_per_folder cfg,
                 wi_save_mask = cfg_save_masks cfg, wi_save_overlay = cfg_save_overlays cfg\<rparr>)
         [cfg_start cfg .. cfg_end cfg - 1]"

definition write_failure_log :: "path \<Rightarrow> work_item list \<Rightarrow> filesystem \<Rightarrow> filesystem" where
  "write_failure_log output_dir failed fs =
     (if failed \<noteq> []
      then write_file (os_path_join output_dir ''failed.json'')
             (encode_text (json_dump_ints (map wi_idx failed))) fs
      else fs)"

definition cmd_extract ::
  "cv_lib \<Rightarrow> nat list \<Rightarrow> config \<Rightarrow> filesystem \<Rightarrow> (py_exc + unit) \<times> filesystem" where
  "cmd_extract cv order cfg fs =
     (case run_parallel order (build_work cfg) (extract_worker cv) fs of
        (Inl e, fs1) \<Rightarrow> (Inl e, fs1)
      | (Inr (results, failed), fs1) \<Rightarrow>
          (Inr (), write_failure_log (cfg_output_dir cfg) failed fs1))"

section \<open>Reading the formats back\<close>

text \<open>
  What a consumer of the files does: read a decimal file name as a number, and read four
  bytes, most significant first, as an unsigned 32-bit number.
\<close>

definition is_digit :: "char \<Rightarrow> bool" where
  "is_digit c \<longleftrightarrow> 48 \<le> (of_char c :: nat) \<and> (of_char c :: nat) \<le> 57"

definition digit_val :: "char \<Rightarrow> nat" where
  "digit_val c = of_char c - 48"

definition read_decimal :: "string \<Rightarrow> nat" where
  "read_decimal s = foldl (\<lambda>a c. 10 * a + digit_val c) 0 s"

definition read_int :: "string \<Rightarrow> int" where
  "read_int s =
     (case s of
        [] \<Rightarrow> 0
      | c # r \<Rightarrow> if c = CHR ''-'' then - int (read_decimal r) else int (read_decimal s))"

text \<open>Reading a JSON array of ints: the text between the brackets, split at the commas.\<close>

fun split_on :: "char \<Rightarrow> string \<Rightarrow> string list" where
  "split_on c [] = [[]]"
| "split_on c (x # xs) =
     (if x = c then [] # split_on c xs
      else (case split_on c xs of [] \<Rightarrow> [[x]] | p # ps \<Rightarrow> (x # p) # ps))"

definition read_json_ints :: "string \<Rightarrow> int list option" where
  "read_json_ints s =
     (case s of
        [] \<Rightarrow> None
      | c # r \<Rightarrow>
          if c \<noteq> CHR ''['' \<or> r = [] \<or> last r \<noteq> CHR '']'' then None
          else if butlast r = [] then Some []
          else Some (map (\<lambda>p. read_int (dropWhile (\<lambda>c. c = CHR '' '') p))
                      (split_on (CHR '','') (butlast r))))"

definition be_uint32 :: "byte list \<Rightarrow> nat" where
  "be_uint32 bs =
     (case bs of
        [a, b, c, d] \<Rightarrow> unat a * 2 ^ 24 + unat b * 2 ^ 16 + unat c * 2 ^ 8 + unat d
      | _ \<Rightarrow> 0)"

text \<open>
  Rounding a float to single precision and reading it as a float again, and the floats
  \<open>struct.pack\<close> accepts for the \<open>f\<close> format: the infinities, the NaNs, and the finite ones
  whose rounding is finite.
\<close>

definition float32_round :: "f64 \<Rightarrow> f64" where
  "float32_round x = single_to_double (double_to_single x)"

definition packs_as_f32 :: "f64 \<Rightarrow> bool" where
  "packs_as_f32 x \<longleftrightarrow> f64_is_inf x \<or> \<not> f32_is_inf (double_to_single x)"

text \<open>
  The floats in the range of binary32. The exponent and fraction fields of a double, read
  as one number, order the magnitudes; \<open>0x47EFFFFFF0000000\<close> is the pattern of
  \<open>2^128 - 2^103\<close>, half way between the largest finite binary32 value and \<open>2^128\<close>.
  A float is storable when it is an infinity, a NaN, or finite with a magnitude below it.
\<close>

definition in_float32_range :: "f64 \<Rightarrow> bool" where
  "in_float32_range x \<longleftrightarrow> f64_exp x * 2 ^ 52 + f64_frac x < 0x47EFFFFFF0000000"

definition storable_float :: "f64 \<Rightarrow> bool" where
  "storable_float x \<longleftrightarrow> \<not> f64_is_finite x \<or> in_float32_range x"

text \<open>
  A descriptor rounded to single precision field by field; the descriptors whose five
  fields are storable floats, or numbers whose \<open>float\<close> is one, or floats that are binary32
  values already; and the binary32 value a field is stored as.
\<close>

definition round_descriptor :: "pydict \<Rightarrow> pydict" where
  "round_descriptor d =
     (\<lambda>k. if k \<in> set ELLIPSE_KEYS
          then (case d k of Some (PyFloat x) \<Rightarrow> Some (PyFloat (float32_round x)) | _ \<Rightarrow> None)
          else None)"

definition float_fields :: "pydict \<Rightarrow> bool" where
  "float_fields d \<longleftrightarrow>
     (\<forall>k \<in> set ELLIPSE_KEYS. \<exists>x. d k = Some (PyFloat x) \<and> storable_float x)"

definition numeric_fields :: "pydict \<Rightarrow> bool" where
  "numeric_fields d \<longleftrightarrow>
     (\<forall>k \<in> set ELLIPSE_KEYS. \<exists>v x. d k = Some v \<and> py_float v = Inr x \<and> storable_float x)"

definition float32_fields :: "pydict \<Rightarrow> bool" where
  "float32_fields d \<longleftrightarrow>
     (\<forall>k \<in> set ELLIPSE_KEYS. \<exists>y. d k = Some (PyFloat (single_to_double y)) \<and> \<not> f32_is_nan y)"

definition field_single :: "pydict \<Rightarrow> string \<Rightarrow> f32 option" where
  "field_single d k =
     (case d k of
        None \<Rightarrow> None
      | Some v \<Rightarrow> (case py_float v of Inl e \<Rightarrow> None | Inr x \<Rightarrow> Some (double_to_single x)))"

text \<open>
  Descriptors for evaluating the codec: one with the field \<open>center_x = 1e39\<close>, one with
  ints among its fields, one with the floats \<open>0.1, 3.0, 100.0, -1.0, 0.0\<close>, and that
  one rounded to single precision.
\<close>

definition huge_descriptor :: pydict where
  "huge_descriptor =
     [''center_x'' \<mapsto> PyFloat 0x48078287F49C4A1D, ''center_y'' \<mapsto> PyFloat 0,
      ''major_axis'' \<mapsto> PyFloat 0, ''minor_axis'' \<mapsto> PyFloat 0,
      ''rotation_angle'' \<mapsto> PyFloat 0]"

definition mixed_descriptor :: pydict where
  "mixed_descriptor =
     [''center_x'' \<mapsto> PyFloat 0x3FB999999999999A, ''center_y'' \<mapsto> PyInt 3,
      ''major_axis'' \<mapsto> PyFloat 0x4059000000000000, ''minor_axis'' \<mapsto> PyInt (- 1),
      ''rotation_angle'' \<mapsto> PyFloat 0]"

definition float_descriptor :: pydict where
  "float_descriptor =
     [''center_x'' \<mapsto> PyFloat 0x3FB999999999999A, ''center_y'' \<mapsto> PyFloat 0x4008000000000000,
      ''major_axis'' \<mapsto> PyFloat 0x4059000000000000, ''minor_axis'' \<mapsto> PyFloat 0xBFF0000000000000,
      ''rotation_angle'' \<mapsto> PyFloat 0]"

definition single_descriptor :: pydict where
  "single_descriptor =
     [''center_x'' \<mapsto> PyFloat 0x3FB99999A0000000, ''center_y'' \<mapsto> PyFloat 0x4008000000000000,
      ''major_axis'' \<mapsto> PyFloat 0x4059000000000000, ''minor_axis'' \<mapsto> PyFloat 0xBFF0000000000000,
      ''rotation_angle'' \<mapsto> PyFloat 0]"

section \<open>What the batch loop is expected to return\<close>

text \<open>
  For a list of items paired with what their calls returned or raised: the entries of the
  success list, the items whose call succeeded, and the items of the failure list.
\<close>

fun is_success :: "'r worker_result \<Rightarrow> bool" where
  "is_success (Inr (idx, Some result)) = True"
| "is_success _ = False"

fun successes :: "('i \<times> 'r worker_result) list \<Rightarrow> (int \<times> 'r) list" where
  "successes [] = []"
| "successes ((item, Inr (idx, Some result)) # rest) = (idx, result) # successes rest"
| "successes (_ # rest) = successes rest"

definition success_items :: "('i \<times> 'r worker_result) list \<Rightarrow> 'i list" where
  "success_items outs = map fst (filter (\<lambda>(item, out). is_success out) outs)"

definition failures :: "('i \<times> 'r worker_result) list \<Rightarrow> 'i list" where
  "failures outs = map fst (filter (\<lambda>(item, out). \<not> is_success out) outs)"

definition raises_only_Exception :: "('i, 's, 'r) worker \<Rightarrow> bool" where
  "raises_only_Exception worker_fn \<longleftrightarrow>
     (\<forall>item s e. fst (worker_fn item s) = Inl e \<longrightarrow> is_Exception e)"

section \<open>Stand-ins for the OpenCV calls\<close>

text \<open>
  Two concrete libraries for evaluating the model. \<open>null_cv\<close> decodes nothing.
  \<open>stub_cv cs\<close> decodes every file to a one-pixel image, finds the contours \<open>cs\<close> in
  every mask, takes the number of points of a contour for its area, fits the ellipse
  with all five parameters zero, and draws nothing.
\<close>

definition blank_image :: image where
  "blank_image = \<lparr>img_h = 1, img_w = 1, img_pixels = [0]\<rparr>"

definition zero_rect :: rotated_rect where
  "zero_rect = ((0, 0), (0, 0), 0)"

definition null_cv :: cv_lib where
  "null_cv =
     \<lparr>imdecode = (\<lambda>flag b. None), imencode = (\<lambda>ext img. img_pixels img),
      resize_nearest = (\<lambda>img sz. Inr img), findContours = (\<lambda>img. []),
      contourArea = (\<lambda>c. 0), fitEllipse = (\<lambda>c. Inl Cv2Error),
      ellipse = (\<lambda>img center axes angle color thickness. Inl Cv2Error)\<rparr>"

definition stub_cv :: "contour list \<Rightarrow> cv_lib" where
  "stub_cv cs =
     \<lparr>imdecode = (\<lambda>flag b. Some blank_image), imencode = (\<lambda>ext img. img_pixels img),
      resize_nearest = (\<lambda>img sz. Inr img), findContours = (\<lambda>img. cs),
      contourArea = (\<lambda>c. real (length c)), fitEllipse = (\<lambda>c. Inr zero_rect),
      ellipse = (\<lambda>img center axes angle color thickness. Inr img)\<rparr>"

text \<open>Three contours for evaluating the fitter: a triangle and two hexagons.\<close>

definition tri :: contour where
  "tri = [(0, 0), (4, 0), (0, 4)]"

definition hexa :: contour where
  "hexa = [(0, 0), (2, 0), (3, 1), (3, 3), (1, 3), (0, 2)]"

definition hexb :: contour where
  "hexb = [(10, 10), (12, 10), (13, 11), (13, 13), (11, 13), (10, 12)]"

text \<open>What \<open>fit_ellipse\<close> returns once a contour is chosen: the fitted rectangle, flattened.\<close>

definition fit_result :: "py_exc + rotated_rect \<Rightarrow> py_exc + (f64 \<times> f64 \<times> f64 \<times> f64 \<times> f64)" where
  "fit_result r =
     bind_exc r (\<lambda>((cx, cy), (major, minor), angle). Inr (cx, cy, major, minor, angle))"

section \<open>When an item fails\<close>

text \<open>
  The paths \<open>extract_worker\<close> builds for an item, and the failures it is meant to absorb:
  the image cannot be read, the mask loader raises \<open>FileNotFoundError\<close> or \<open>IOError\<close>,
  or the fitter raises \<open>ValueError\<close>.
\<close>

definition item_image_path :: "work_item \<Rightarrow> path" where
  "item_image_path item = os_path_join (wi_image_dir item) (py_str_int (wi_idx item) @ ''.jpg'')"

definition item_mask_folder :: "work_item \<Rightarrow> path" where
  "item_mask_folder item =
     os_path_join (wi_mask_dir item) (py_str_int (wi_idx item div wi_images_per_folder item))"

fun loader_error :: "py_exc \<Rightarrow> bool" where
  "loader_error (FileNotFoundError m) = True"
| "loader_error (OSError m) = True"
| "loader_error _ = False"

fun fitter_error :: "py_exc \<Rightarrow> bool" where
  "fitter_error (ValueError m) = True"
| "fitter_error _ = False"

definition item_fails :: "cv_lib \<Rightarrow> work_item \<Rightarrow> filesystem \<Rightarrow> bool" where
  "item_fails cv item fs =
     (case cv_imread cv fs (item_image_path item) IMREAD_COLOR of
        None \<Rightarrow> True
      | Some img \<Rightarrow>
          (case build_face_mask cv fs (item_mask_folder item) (format_0wd 5 (wi_idx item))
                  (Some (img_w img, img_h img)) of
             Inl e \<Rightarrow> loader_error e
           | Inr mask_img \<Rightarrow>
               (case fit_ellipse cv mask_img of Inl e \<Rightarrow> fitter_error e | Inr d \<Rightarrow> False)))"

text \<open>The success path: the image is read, the mask is loaded and the fit returns.\<close>

definition item_fit_succeeds :: "cv_lib \<Rightarrow> work_item \<Rightarrow> filesystem \<Rightarrow> bool" where
  "item_fit_succeeds cv item fs \<longleftrightarrow>
     wi_images_per_folder item \<noteq> 0 \<and>
     (case cv_imread cv fs (item_image_path item) IMREAD_COLOR of
        None \<Rightarrow> False
      | Some img \<Rightarrow>
          (case build_face_mask cv fs (item_mask_folder item) (format_0wd 5 (wi_idx item))
                  (Some (img_w img, img_h img)) of
             Inl e \<Rightarrow> False
           | Inr mask_img \<Rightarrow>
               (case fit_ellipse cv mask_img of Inl e \<Rightarrow> False | Inr d \<Rightarrow> True)))"

section \<open>Items, configurations and workers for evaluating the model\<close>

definition demo_item :: "int \<Rightarrow> int \<Rightarrow> work_item" where
  "demo_item idx per_folder =
     \<lparr>wi_idx = idx, wi_image_dir = ''img'', wi_mask_dir = ''mask'', wi_output_dir = ''out'',
      wi_images_per_folder = per_folder, wi_save_mask = False, wi_save_overlay = False\<rparr>"

definition demo_files :: filesystem where
  "demo_files = [''img/7.jpg'' \<mapsto> [], ''mask/0/00007_skin.png'' \<mapsto> []]"

definition demo_config :: "int \<Rightarrow> int \<Rightarrow> config" where
  "demo_config start stop =
     \<lparr>cfg_image_dir = ''img'', cfg_mask_dir = ''mask'', cfg_output_dir = ''out'',
      cfg_images_per_folder = 2000, cfg_start = start, cfg_end = stop,
      cfg_save_masks = False, cfg_save_overlays = False\<rparr>"

definition demo_worker :: "(int, unit, int) worker" where
  "demo_worker item s =
     (if item = 0 then Inl (ValueError ''bad item'')
      else if item = 1 then Inr (item, None)
      else Inr (item, Some (2 * item)), s)"

definition exiting_worker :: "(int, unit, int) worker" where
  "exiting_worker item s = (if item = 1 then Inl SystemExit else Inr (item, Some item), s)"

section \<open>Decimal rendering: lemmas\<close>

lemma digit_val_digit_char: "d < 10 \<Longrightarrow> digit_val (digit_char d) = d"
  by (simp add: digit_val_def digit_char_def)

lemma is_digit_digit_char: "d < 10 \<Longrightarrow> is_digit (digit_char d)"
  by (simp add: is_digit_def digit_char_def)

lemma digit_char_numerals:
  "digit_char 0 = CHR ''0''" "digit_char 1 = CHR ''1''" "digit_char 2 = CHR ''2''"
  "digit_char 3 = CHR ''3''" "digit_char 4 = CHR ''4''" "digit_char 5 = CHR ''5''"
  "digit_char 6 = CHR ''6''" "digit_char 7 = CHR ''7''" "digit_char 8 = CHR ''8''"
  "digit_char 9 = CHR ''9''" "digit_char (Suc 0) = CHR ''1''"
  by code_simp+

lemma replicate_num: "replicate (numeral k) x = x # replicate (pred_numeral k) x"
  by (simp add: numeral_eq_Suc)

lemma read_decimal_snoc: "read_decimal (s @ [c]) = 10 * read_decimal s + digit_val c"
  by (simp add: read_decimal_def)

lemma read_decimal_digits10: "read_decimal (digits10 n) = n"
proof (induction n rule: digits10.induct)
  case (1 n)
  show ?case
  proof (cases "n < 10")
    case True
    then show ?thesis
      by (subst digits10.simps) (simp add: read_decimal_def digit_val_digit_char)
  next
    case False
    then have "read_decimal (digits10 (n div 10)) = n div 10"
      using 1 by simp
    with False show ?thesis
      by (subst digits10.simps) (simp add: read_decimal_snoc digit_val_digit_char)
  qed
qed

lemma digits10_all_digits: "list_all is_digit (digits10 n)"
proof (induction n rule: digits10.induct)
  case (1 n)
  show ?case
  proof (cases "n < 10")
    case True
    then show ?thesis
      by (subst digits10.simps) (simp add: is_digit_digit_char)
  next
    case False
    then have "list_all is_digit (digits10 (n div 10))"
      using 1 by simp
    with False show ?thesis
      by (subst digits10.simps) (simp add: is_digit_digit_char)
  qed
qed

lemma digits10_nonempty: "digits10 n \<noteq> []"
  by (subst digits10.simps) simp

lemma hd_digits10_is_digit: "is_digit (hd (digits10 n))"
  using digits10_all_digits [of n] digits10_nonempty [of n]
  by (cases "digits10 n") simp_all

lemma hd_digits10_not_minus: "hd (digits10 n) \<noteq> CHR ''-''"
  using hd_digits10_is_digit [of n] by (auto simp add: is_digit_def)

lemma read_decimal_zeros: "read_decimal (replicate k (CHR ''0'') @ s) = read_decimal s"
proof -
  have "foldl (\<lambda>a c. 10 * a + digit_val c) 0 (replicate k (CHR ''0'')) = 0"
    by (induction k) (simp_all add: digit_val_def)
  then show ?thesis
    by (simp add: read_decimal_def)
qed

lemma digits10_length_le: "n < 10 ^ k \<Longrightarrow> 0 < k \<Longrightarrow> length (digits10 n) \<le> k"
proof (induction n arbitrary: k rule: digits10.induct)
  case (1 n)
  show ?case
  proof (cases "n < 10")
    case True
    then show ?thesis
      using 1(3) by (subst digits10.simps) simp
  next
    case False
    obtain j where k: "k = Suc j"
      using 1(3) by (cases k) auto
    have "0 < j"
      using False 1(2) k by (cases j) auto
    moreover have "n div 10 < 10 ^ j"
      using 1(2) k by (simp add: less_mult_imp_div_less mult.commute)
    ultimately have "length (digits10 (n div 10)) \<le> j"
      using 1(1) False by simp
    with False k show ?thesis
      by (subst digits10.simps) simp
  qed
qed

section \<open>The record path\<close>

text \<open>
  Claim C9. For every index and output directory, \<open>annotation_path\<close> is the directory, a
  slash, the index as a decimal number padded with zeros to five characters, and the
  extension \<open>.bin\<close>. The name is as long as the plain rendering of the index, or five
  characters if that is shorter; read back as a number it is the index; for an index
  that is not negative it consists of digits only, exactly five of them below 100000.
  A negative index keeps its sign in front of the zeros, as \<open>05d\<close> formats it.
\<close>

theorem annotation_path_zero_padded:
  "annotation_path dir idx = dir @ ''/'' @ format_0wd 5 idx @ ''.bin''
   \<and> length (format_0wd 5 idx) = max 5 (length (py_str_int idx))
   \<and> read_int (format_0wd 5 idx) = idx
   \<and> (0 \<le> idx \<longrightarrow> list_all is_digit (format_0wd 5 idx))
   \<and> (0 \<le> idx \<and> idx < 100000 \<longrightarrow> length (format_0wd 5 idx) = 5)"
proof (cases "idx < 0")
  case True
  then have abs: "nat \<bar>idx\<bar> = nat (- idx)"
    by simp
  have "read_int (format_0wd 5 idx) = - int (nat (- idx))"
    using True
    by (simp add: format_0wd_def read_int_def Let_def read_decimal_zeros
        read_decimal_digits10 abs)
  with True show ?thesis
    by (auto simp add: annotation_path_def format_0wd_def py_str_int_def Let_def abs)
next
  case False
  then have abs: "nat \<bar>idx\<bar> = nat idx"
    by simp
  let ?body = "digits10 (nat idx)"
  let ?name = "replicate (5 - length ?body) (CHR ''0'') @ ?body"
  have ne: "?body \<noteq> []"
    by (rule digits10_nonempty)
  have "hd ?name \<noteq> CHR ''-''"
    using hd_digits10_not_minus [of "nat idx"] ne
    by (cases "5 - length ?body") simp_all
  moreover have "?name \<noteq> []"
    using ne by simp
  ultimately have "read_int ?name = int (read_decimal ?name)"
    by (cases ?name) (simp_all add: read_int_def)
  then have r: "read_int (format_0wd 5 idx) = idx"
    using False
    by (simp add: format_0wd_def Let_def abs read_decimal_zeros read_decimal_digits10)
  have d: "list_all is_digit (format_0wd 5 idx)"
    using False digits10_all_digits [of "nat idx"]
    by (auto simp add: format_0wd_def Let_def abs is_digit_def list_all_iff)
  have l: "idx < 100000 \<Longrightarrow> length ?body \<le> 5"
    using False digits10_length_le [of "nat idx" 5] by simp
  from False r d l show ?thesis
    by (auto simp add: annotation_path_def format_0wd_def py_str_int_def Let_def abs)
qed

theorem annotation_path_zero_padded_witness:
  "(0::int) \<le> 30 \<and> (30::int) < 100000
   \<and> annotation_path ''out'' 30 = ''out/'' @ format_0wd 5 30 @ ''.bin''
   \<and> length (format_0wd 5 30) = 5
   \<and> list_all is_digit (format_0wd 5 30)
   \<and> read_int (format_0wd 5 30) = 30"
  using annotation_path_zero_padded [of "''out''" 30] by simp

lemma annotation_path_example: "annotation_path ''out'' 30 = ''out/00030.bin''"
  by (simp add: annotation_path_def format_0wd_def digits10.simps digit_char_numerals
      Let_def replicate_num)

lemma annotation_path_negative_example: "annotation_path ''out'' (- 30) = ''out/-0030.bin''"
  by (simp add: annotation_path_def format_0wd_def digits10.simps digit_char_numerals
      Let_def replicate_num)

section \<open>Decoding a record\<close>

lemma bind_exc_simps [simp]:
  "bind_exc (Inl e) f = Inl e" "bind_exc (Inr v) f = f v"
  by (simp_all add: bind_exc_def)

lemma struct_unpack_5f_wrong_length:
  "length buf \<noteq> 20 \<Longrightarrow> struct_unpack_5f buf = Inl (StructError ''unpack requires a buffer of 20 bytes'')"
  by (simp add: struct_unpack_5f_def)

text \<open>
  Claim C3, as the code has it. \<open>load_ellipse\<close> reads at most 20 bytes of the file. A file
  shorter than 20 bytes is rejected with \<open>struct.error\<close>; a file of 20 bytes or more is
  decoded from its first 20 bytes, whatever follows them.
\<close>

theorem load_ellipse_length:
  assumes "fs p = Some b"
  shows "(length b < 20 \<longrightarrow>
            load_ellipse p fs = Inl (StructError ''unpack requires a buffer of 20 bytes''))
       \<and> (20 \<le> length b \<longrightarrow>
            load_ellipse p fs =
              Inr (map_of (zip ELLIPSE_KEYS
                    (map (\<lambda>i. PyFloat (PyFloat_Unpack4 (take 4 (drop (4 * i) b)))) [0..<5]))))"
proof (intro conjI impI)
  assume "length b < 20"
  then show "load_ellipse p fs = Inl (StructError ''unpack requires a buffer of 20 bytes'')"
    using assms by (simp add: load_ellipse_def open_read_def struct_unpack_5f_def)
next
  assume "20 \<le> length b"
  then have len: "length (take 20 b) = 20" by simp
  have chunk: "\<And>i. i < 5 \<Longrightarrow> take 4 (drop (4 * i) (take 20 b)) = take 4 (drop (4 * i) b)"
    by (simp add: drop_take min_def)
  have eq: "map (\<lambda>i. PyFloat_Unpack4 (take 4 (drop (4 * i) (take 20 b)))) [0..<5]
      = map (\<lambda>i. PyFloat_Unpack4 (take 4 (drop (4 * i) b))) [0..<5]"
    using chunk by simp
  have "struct_unpack_5f (take 20 b)
      = Inr (map (\<lambda>i. PyFloat_Unpack4 (take 4 (drop (4 * i) b))) [0..<5])"
    unfolding struct_unpack_5f_def eq using len by simp
  then show "load_ellipse p fs =
              Inr (map_of (zip ELLIPSE_KEYS
                    (map (\<lambda>i. PyFloat (PyFloat_Unpack4 (take 4 (drop (4 * i) b)))) [0..<5])))"
    using assms by (simp add: load_ellipse_def open_read_def o_def del: upt_rec_numeral)
qed

lemma upt_0_5: "[0..<5] = [0, 1, 2, 3, 4]"
  by (simp add: upt_rec)

lemma single_to_double_zero: "single_to_double 0 = 0"
  by (simp add: single_to_double_def f32_sign_def f32_exp_def f32_frac_def)

lemma PyFloat_Unpack4_zero: "PyFloat_Unpack4 [0, 0, 0, 0] = 0"
  by (simp add: PyFloat_Unpack4_def single_to_double_zero)

text \<open>
  The claim as stated fails: a file of 21 bytes is not rejected, it decodes to five zeros.
\<close>

theorem load_ellipse_long_file_counterexample:
  "length (replicate 21 (0 :: byte)) \<noteq> 20
   \<and> load_ellipse ''r.bin'' [''r.bin'' \<mapsto> replicate 21 0]
       = Inr (map_of (zip ELLIPSE_KEYS (replicate 5 (PyFloat 0))))"
  by (simp add: load_ellipse_def open_read_def struct_unpack_5f_def replicate_num PyFloat_Unpack4_zero upt_0_5)

theorem load_ellipse_length_witness:
  "load_ellipse ''r.bin'' [''r.bin'' \<mapsto> replicate 19 0]
       = Inl (StructError ''unpack requires a buffer of 20 bytes'')
   \<and> load_ellipse ''r.bin'' [''r.bin'' \<mapsto> replicate 21 0]
       = Inr (map_of (zip ELLIPSE_KEYS (replicate 5 (PyFloat 0))))"
  using load_ellipse_length [of "[''r.bin'' \<mapsto> replicate 19 0]" "''r.bin''" "replicate 19 0"]
        load_ellipse_length [of "[''r.bin'' \<mapsto> replicate 21 0]" "''r.bin''" "replicate 21 0"]
  by (simp add: replicate_num PyFloat_Unpack4_zero upt_0_5)

section \<open>Choosing the contour\<close>

lemma max_key_loop_split:
  "\<exists>before after. best # xs = before @ max_key_loop key best xs # after
     \<and> (\<forall>y \<in> set before. key y < key (max_key_loop key best xs))
     \<and> (\<forall>z \<in> set after. key z \<le> key (max_key_loop key best xs))"
proof (induction xs arbitrary: best)
  case Nil
  show ?case
    by (rule exI [of _ "[]"], rule exI [of _ "[]"]) simp
next
  case (Cons x xs)
  show ?case
  proof (cases "key best < key x")
    case True
    let ?r = "max_key_loop key x xs"
    from Cons.IH [of x] obtain before after where
      s: "x # xs = before @ ?r # after"
      and b: "\<forall>y \<in> set before. key y < key ?r"
      and a: "\<forall>z \<in> set after. key z \<le> key ?r"
      by blast
    have "key x \<le> key ?r"
    proof (cases before)
      case Nil
      with s have "x = ?r"
        by auto
      then have "key x = key ?r"
        by (rule arg_cong)
      then show ?thesis
        by (rule order_eq_refl)
    next
      case (Cons y ys)
      with s have "x = y"
        by simp
      moreover have "key y < key ?r"
        using b Cons by simp
      ultimately show ?thesis
        by (simp add: less_imp_le)
    qed
    with True have lt: "key best < key ?r"
      by simp
    have e: "max_key_loop key best (x # xs) = ?r"
      using True by simp
    have sp: "best # x # xs = (best # before) @ ?r # after"
      using s by simp
    have b': "\<forall>y \<in> set (best # before). key y < key ?r"
      using b lt by simp
    show ?thesis
      unfolding e using sp b' a by blast
  next
    case False
    let ?r = "max_key_loop key best xs"
    from Cons.IH [of best] obtain before after where
      s: "best # xs = before @ ?r # after"
      and b: "\<forall>y \<in> set before. key y < key ?r"
      and a: "\<forall>z \<in> set after. key z \<le> key ?r"
      by blast
    have e: "max_key_loop key best (x # xs) = ?r"
      using False by simp
    show ?thesis
    proof (cases before)
      case Nil
      with s have r: "?r = best" and xs: "xs = after"
        by auto
      have sp: "best # x # xs = [] @ ?r # (x # after)"
        using r xs by simp
      have a': "\<forall>z \<in> set (x # after). key z \<le> key ?r"
        using a r False by auto
      have b': "\<forall>y \<in> set []. key y < key ?r"
        by simp
      show ?thesis
        unfolding e using sp b' a' by blast
    next
      case (Cons y ys)
      with s have y: "y = best" and xs: "xs = ys @ ?r # after"
        by auto
      have "key best < key ?r"
        using b Cons y by simp
      with False have "key x < key ?r"
        by simp
      then have b': "\<forall>y \<in> set (best # x # ys). key y < key ?r"
        using b Cons y by simp
      have sp: "best # x # xs = (best # x # ys) @ ?r # after"
        using xs by simp
      show ?thesis
        unfolding e using sp b' a by blast
    qed
  qed
qed

lemma py_max_key_split:
  assumes "xs \<noteq> []"
  shows "\<exists>before largest after. py_max_key key xs = Inr largest
     \<and> xs = before @ largest # after
     \<and> (\<forall>y \<in> set before. key y < key largest)
     \<and> (\<forall>z \<in> set after. key z \<le> key largest)"
proof -
  from assms obtain x rest where xs: "xs = x # rest"
    by (cases xs) auto
  from max_key_loop_split [of x rest key] obtain before after where
    s: "x # rest = before @ max_key_loop key x rest # after"
    and b: "\<forall>y \<in> set before. key y < key (max_key_loop key x rest)"
    and a: "\<forall>z \<in> set after. key z \<le> key (max_key_loop key x rest)"
    by blast
  have m: "py_max_key key xs = Inr (max_key_loop key x rest)"
    using xs by (simp add: py_max_key_def)
  have "xs = before @ max_key_loop key x rest # after"
    using xs s by (rule trans)
  with m b a show ?thesis
    by blast
qed

lemma stub_sel [simp]:
  "findContours (stub_cv cs) m = cs" "contourArea (stub_cv cs) c = real (length c)"
  "fitEllipse (stub_cv cs) c = Inr zero_rect"
  by (simp_all add: stub_cv_def)

text \<open>
  Claim C4. When no contour is found, \<open>fit_ellipse\<close> raises the \<open>ValueError\<close> for a mask
  without a usable region; when the contour chosen by \<open>max\<close> has fewer than five points, it
  raises the \<open>ValueError\<close> for a degenerate contour, a different message. Neither case
  returns a descriptor.
\<close>

theorem fit_ellipse_degenerate:
  "(findContours cv mask_img = [] \<longrightarrow> fit_ellipse cv mask_img = Inl (ValueError no_contour_msg))
   \<and> (\<forall>largest. findContours cv mask_img \<noteq> []
         \<and> py_max_key (contourArea cv) (findContours cv mask_img) = Inr largest
         \<and> length largest < 5
        \<longrightarrow> fit_ellipse cv mask_img = Inl (ValueError few_points_msg))
   \<and> no_contour_msg \<noteq> few_points_msg"
  by (simp add: fit_ellipse_def Let_def no_contour_msg_def few_points_msg_def)

theorem fit_ellipse_degenerate_witness:
  "findContours (stub_cv []) blank_image = []
   \<and> fit_ellipse (stub_cv []) blank_image = Inl (ValueError no_contour_msg)
   \<and> findContours (stub_cv [tri]) blank_image \<noteq> []
   \<and> py_max_key (contourArea (stub_cv [tri])) (findContours (stub_cv [tri]) blank_image) = Inr tri
   \<and> length tri < 5
   \<and> fit_ellipse (stub_cv [tri]) blank_image = Inl (ValueError few_points_msg)"
  using fit_ellipse_degenerate [of "stub_cv []" blank_image]
        fit_ellipse_degenerate [of "stub_cv [tri]" blank_image]
  by (simp add: py_max_key_def tri_def)

text \<open>
  Claim C5. For a mask with at least one contour, the contour \<open>fit_ellipse\<close> works on has
  an area no smaller than any other, and every contour before it in the order of
  \<open>findContours\<close> has a strictly smaller area: of several contours with the maximal area
  it is the first.
\<close>

theorem fit_ellipse_selects_largest:
  assumes "findContours cv mask_img \<noteq> []"
  shows "\<exists>before largest after.
           findContours cv mask_img = before @ largest # after
         \<and> (\<forall>c \<in> set before. contourArea cv c < contourArea cv largest)
         \<and> (\<forall>c \<in> set after. contourArea cv c \<le> contourArea cv largest)
         \<and> fit_ellipse cv mask_img =
             (if length largest < 5 then Inl (ValueError few_points_msg)
              else fit_result (fitEllipse cv largest))"
proof -
  from py_max_key_split [OF assms, of "contourArea cv"] obtain before largest after where
    m: "py_max_key (contourArea cv) (findContours cv mask_img) = Inr largest"
    and s: "findContours cv mask_img = before @ largest # after"
    and b: "\<forall>y \<in> set before. contourArea cv y < contourArea cv largest"
    and a: "\<forall>z \<in> set after. contourArea cv z \<le> contourArea cv largest"
    by blast
  have "fit_ellipse cv mask_img =
             (if length largest < 5 then Inl (ValueError few_points_msg)
              else fit_result (fitEllipse cv largest))"
    using assms m by (simp add: fit_ellipse_def fit_result_def Let_def)
  with s b a show ?thesis by blast
qed

theorem fit_ellipse_selects_largest_witness:
  "findContours (stub_cv [tri, hexa, hexb]) blank_image \<noteq> []
   \<and> (\<exists>before largest after.
         findContours (stub_cv [tri, hexa, hexb]) blank_image = before @ largest # after
       \<and> (\<forall>c \<in> set before.
             contourArea (stub_cv [tri, hexa, hexb]) c < contourArea (stub_cv [tri, hexa, hexb]) largest)
       \<and> (\<forall>c \<in> set after.
             contourArea (stub_cv [tri, hexa, hexb]) c \<le> contourArea (stub_cv [tri, hexa, hexb]) largest)
       \<and> fit_ellipse (stub_cv [tri, hexa, hexb]) blank_image =
            (if length largest < 5 then Inl (ValueError few_points_msg)
             else fit_result (fitEllipse (stub_cv [tri, hexa, hexb]) largest)))"
  using fit_ellipse_selects_largest [of "stub_cv [tri, hexa, hexb]" blank_image]
  by (simp add: tri_def)

lemma fit_first_of_equal:
  "fit_ellipse (stub_cv [tri, hexa, hexb]) blank_image = Inr (0, 0, 0, 0, 0)"
  by (simp add: fit_ellipse_def py_max_key_def tri_def hexa_def hexb_def Let_def zero_rect_def)

lemma py_max_key_first_of_equal: "py_max_key (contourArea (stub_cv [tri, hexa, hexb])) [tri, hexa, hexb] = Inr hexa"
  by (simp add: py_max_key_def tri_def hexa_def hexb_def)


section \<open>The extraction worker\<close>

lemma loader_error_caught: "loader_error e \<Longrightarrow> worker_catches e"
  by (cases e) simp_all

lemma fitter_error_caught: "fitter_error e \<Longrightarrow> worker_catches e"
  by (cases e) simp_all

lemma extract_worker_writes_after_fit:
  assumes "\<not> item_fit_succeeds cv item fs"
  shows "snd (extract_worker cv item fs) = fs"
proof (cases "wi_images_per_folder item = 0")
  case True
  then show ?thesis
    by (simp add: extract_worker_def py_floordiv_def Let_def)
next
  case nz: False
  show ?thesis
  proof (cases "cv_imread cv fs (item_image_path item) IMREAD_COLOR")
    case None
    with nz show ?thesis
      by (simp add: extract_worker_def py_floordiv_def item_image_path_def Let_def)
  next
    case (Some img)
    let ?loaded = "build_face_mask cv fs (item_mask_folder item) (format_0wd 5 (wi_idx item))
                  (Some (img_w img, img_h img))"
    have "\<exists>e. bind_exc ?loaded (fit_ellipse cv) = Inl e"
    proof (cases ?loaded)
      case (Inl e)
      then show ?thesis by simp
    next
      case (Inr mask_img)
      with assms nz Some obtain e where "fit_ellipse cv mask_img = Inl e"
        by (auto simp add: item_fit_succeeds_def split: sum.splits)
      with Inr show ?thesis by simp
    qed
    then obtain e where "bind_exc ?loaded (fit_ellipse cv) = Inl e"
      by blast
    with nz Some show ?thesis
      by (simp add: extract_worker_def py_floordiv_def item_image_path_def item_mask_folder_def Let_def)
  qed
qed

text \<open>
  Claim C6, as the code has it. For a work item whose \<open>images_per_folder\<close> is not zero: if
  the image cannot be read, or the mask loader raises \<open>FileNotFoundError\<close> or \<open>IOError\<close>,
  or the fitter raises \<open>ValueError\<close>, then \<open>extract_worker\<close> returns the index with
  \<open>None\<close>, raises nothing and leaves every file as it was. And for every work item, whatever
  the worker returns or raises, no file is written unless the image was read, the mask was
  loaded and the fit returned: the record is written on the success path only.
\<close>

theorem extract_worker_failure:
  "(wi_images_per_folder item \<noteq> 0 \<and> item_fails cv item fs \<longrightarrow>
      extract_worker cv item fs = (Inr (wi_idx item, None), fs))
   \<and> (\<not> item_fit_succeeds cv item fs \<longrightarrow> snd (extract_worker cv item fs) = fs)"
proof (intro conjI impI)
  assume "wi_images_per_folder item \<noteq> 0 \<and> item_fails cv item fs"
  then have nz: "wi_images_per_folder item \<noteq> 0" and fails: "item_fails cv item fs"
    by simp_all
  show "extract_worker cv item fs = (Inr (wi_idx item, None), fs)"
  proof (cases "cv_imread cv fs (item_image_path item) IMREAD_COLOR")
    case None
    with nz show ?thesis
      by (simp add: extract_worker_def py_floordiv_def item_image_path_def Let_def)
  next
    case (Some img)
    let ?loaded = "build_face_mask cv fs (item_mask_folder item) (format_0wd 5 (wi_idx item))
                    (Some (img_w img, img_h img))"
    have "\<exists>e. bind_exc ?loaded (fit_ellipse cv) = Inl e \<and> worker_catches e"
    proof (cases ?loaded)
      case (Inl e)
      with fails Some have "loader_error e"
        by (simp add: item_fails_def)
      with Inl show ?thesis
        by (simp add: loader_error_caught)
    next
      case (Inr mask_img)
      with fails Some obtain e where "fit_ellipse cv mask_img = Inl e" "fitter_error e"
        by (auto simp add: item_fails_def split: sum.splits)
      with Inr show ?thesis
        by (simp add: fitter_error_caught)
    qed
    then obtain e where "bind_exc ?loaded (fit_ellipse cv) = Inl e" "worker_catches e"
      by blast
    with nz Some show ?thesis
      by (simp add: extract_worker_def py_floordiv_def item_image_path_def item_mask_folder_def
          Let_def)
  qed
next
  assume "\<not> item_fit_succeeds cv item fs"
  then show "snd (extract_worker cv item fs) = fs"
    by (rule extract_worker_writes_after_fit)
qed

text \<open>
  The claim as stated fails for an item whose \<open>images_per_folder\<close> is zero: the floor
  division that names the mask folder comes before the image is read, and its
  \<open>ZeroDivisionError\<close> leaves the worker.
\<close>

theorem extract_worker_zero_division_counterexample:
  "item_fails null_cv (demo_item 7 0) Map.empty
   \<and> extract_worker null_cv (demo_item 7 0) Map.empty = (Inl ZeroDivisionError, Map.empty)"
  by (simp add: item_fails_def cv_imread_def extract_worker_def py_floordiv_def demo_item_def Let_def)

lemma py_str_int_7: "py_str_int 7 = ''7''"
  by (simp add: py_str_int_def digits10.simps digit_char_numerals)

lemma py_str_int_0: "py_str_int 0 = ''0''"
  by (simp add: py_str_int_def digits10.simps digit_char_numerals)

lemma format_7: "format_0wd 5 7 = ''00007''"
  by (simp add: format_0wd_def digits10.simps digit_char_numerals replicate_num Let_def)

lemma demo_image_path: "item_image_path (demo_item 7 2000) = ''img/7.jpg''"
  by (simp add: item_image_path_def demo_item_def os_path_join_def py_str_int_7)

lemma demo_item_fails_no_mask:
  "item_fails (stub_cv []) (demo_item 7 2000) [''img/7.jpg'' \<mapsto> []]"
  by (simp add: item_fails_def demo_image_path cv_imread_def stub_cv_def build_face_mask_def
      os_path_exists_def item_mask_folder_def demo_item_def os_path_join_def py_str_int_0 format_7 Let_def)

theorem extract_worker_failure_witness:
  "wi_images_per_folder (demo_item 7 2000) \<noteq> 0
   \<and> item_fails null_cv (demo_item 7 2000) Map.empty
   \<and> \<not> item_fit_succeeds null_cv (demo_item 7 2000) Map.empty
   \<and> extract_worker null_cv (demo_item 7 2000) Map.empty = (Inr (7, None), Map.empty)
   \<and> item_fails (stub_cv []) (demo_item 7 2000) [''img/7.jpg'' \<mapsto> []]
   \<and> extract_worker (stub_cv []) (demo_item 7 2000) [''img/7.jpg'' \<mapsto> []]
       = (Inr (7, None), [''img/7.jpg'' \<mapsto> []])"
proof -
  have a: "wi_images_per_folder (demo_item 7 2000) \<noteq> 0"
    by (simp add: demo_item_def)
  have b: "item_fails null_cv (demo_item 7 2000) Map.empty"
    by (simp add: item_fails_def cv_imread_def)
  have c: "\<not> item_fit_succeeds null_cv (demo_item 7 2000) Map.empty"
    by (simp add: item_fit_succeeds_def cv_imread_def)
  have i: "wi_idx (demo_item 7 2000) = 7"
    by (simp add: demo_item_def)
  from extract_worker_failure [of "demo_item 7 2000" null_cv Map.empty]
    extract_worker_failure [of "demo_item 7 2000" "stub_cv []" "[''img/7.jpg'' \<mapsto> []]"]
    a b c demo_item_fails_no_mask i
  show ?thesis
    by simp
qed

section \<open>The batch loop\<close>

lemma run_all_items: "map fst (fst (run_all worker_fn items s)) = items"
proof (induction items arbitrary: s)
  case Nil
  show ?case by simp
next
  case (Cons a items)
  obtain o1 s1 where w: "worker_fn a s = (o1, s1)"
    by (cases "worker_fn a s")
  obtain outs s2 where r: "run_all worker_fn items s1 = (outs, s2)"
    by (cases "run_all worker_fn items s1")
  have "map fst outs = items"
    using Cons.IH [of s1] r by simp
  with w r show ?case
    by simp
qed

lemma fst_run_parallel:
  "fst (run_parallel order work_items worker_fn s)
     = collect (fst (run_all worker_fn (map (\<lambda>i. work_items ! i) order) s)) [] []"
  by (simp add: run_parallel_def case_prod_beta)

lemma run_all_outcome:
  "(item, out) \<in> set (fst (run_all worker_fn items s)) \<Longrightarrow> \<exists>s'. out = fst (worker_fn item s')"
proof (induction items arbitrary: s)
  case Nil
  then show ?case by simp
next
  case (Cons a items)
  obtain o1 s1 where w: "worker_fn a s = (o1, s1)"
    by (cases "worker_fn a s")
  obtain outs s2 where r: "run_all worker_fn items s1 = (outs, s2)"
    by (cases "run_all worker_fn items s1")
  from Cons.prems w r have "(item, out) = (a, o1) \<or> (item, out) \<in> set outs"
    by simp
  then show ?case
  proof
    assume "(item, out) = (a, o1)"
    with w have "out = fst (worker_fn item s)" by simp
    then show ?thesis ..
  next
    assume "(item, out) \<in> set outs"
    with r have "(item, out) \<in> set (fst (run_all worker_fn items s1))" by simp
    then show ?thesis by (rule Cons.IH)
  qed
qed

lemma failures_simps [simp]:
  "failures [] = []"
  "failures ((item, Inl e) # rest) = item # failures rest"
  "failures ((item, Inr (idx, None)) # rest) = item # failures rest"
  "failures ((item, Inr (idx, Some r)) # rest) = failures rest"
  by (simp_all add: failures_def)

lemma success_items_simps [simp]:
  "success_items [] = []"
  "success_items ((item, Inl e) # rest) = success_items rest"
  "success_items ((item, Inr (idx, None)) # rest) = success_items rest"
  "success_items ((item, Inr (idx, Some r)) # rest) = item # success_items rest"
  by (simp_all add: success_items_def)

lemma collect_returns:
  "collect outs results failed = Inr (results', failed')
   \<Longrightarrow> results' = results @ successes outs \<and> failed' = failed @ failures outs"
  by (induction outs results failed rule: collect.induct) (auto split: if_splits)

lemma collect_raises:
  "collect outs results failed = Inl e
   \<Longrightarrow> \<not> is_Exception e \<and> (\<exists>item. (item, Inl e) \<in> set outs)"
  by (induction outs results failed rule: collect.induct) (auto split: if_splits)

lemma collect_total:
  "\<forall>item e. (item, Inl e) \<in> set outs \<longrightarrow> is_Exception e
   \<Longrightarrow> collect outs results failed = Inr (results @ successes outs, failed @ failures outs)"
  by (induction outs results failed rule: collect.induct) auto

lemma length_successes: "length (successes outs) = length (success_items outs)"
  by (induction outs rule: successes.induct) simp_all

lemma mset_success_failures:
  "mset (success_items outs) + mset (failures outs) = mset (map fst outs)"
  by (induction outs rule: successes.induct) simp_all

lemma length_success_failures:
  "length (successes outs) + length (failures outs) = length outs"
  by (induction outs rule: successes.induct) simp_all

lemma mset_completion_order:
  assumes "completion_order order work_items"
  shows "mset (map (\<lambda>i. work_items ! i) order) = mset work_items"
proof -
  have "mset (map (\<lambda>i. work_items ! i) order) = image_mset (\<lambda>i. work_items ! i) (mset order)"
    by simp
  also have "\<dots> = image_mset (\<lambda>i. work_items ! i) (mset [0..<length work_items])"
    using assms by (simp add: completion_order_def)
  also have "\<dots> = mset (map (\<lambda>i. work_items ! i) [0..<length work_items])"
    by simp
  also have "\<dots> = mset work_items"
    by (simp add: map_nth)
  finally show ?thesis .
qed

lemma run_parallel_total:
  assumes "raises_only_Exception worker_fn"
  shows "fst (run_parallel order work_items worker_fn s)
           = Inr (successes (fst (run_all worker_fn (map (\<lambda>i. work_items ! i) order) s)),
                  failures (fst (run_all worker_fn (map (\<lambda>i. work_items ! i) order) s)))"
proof -
  let ?outs = "fst (run_all worker_fn (map (\<lambda>i. work_items ! i) order) s)"
  have "\<forall>item e. (item, Inl e) \<in> set ?outs \<longrightarrow> is_Exception e"
  proof (intro allI impI)
    fix item e
    assume "(item, Inl e) \<in> set ?outs"
    then obtain s' where "Inl e = fst (worker_fn item s')"
      using run_all_outcome by fastforce
    with assms show "is_Exception e"
      by (simp add: raises_only_Exception_def)
  qed
  then have "collect ?outs [] [] = Inr (successes ?outs, failures ?outs)"
    using collect_total [of ?outs "[]" "[]"] by simp
  then show ?thesis
    by (simp add: fst_run_parallel)
qed

lemma demo_worker_raises: "raises_only_Exception demo_worker"
  by (simp add: raises_only_Exception_def demo_worker_def)

lemma demo_run: "run_parallel [2, 0, 1] [0, 1, 2] demo_worker () = (Inr ([(2, 4)], [0, 1]), ())"
  by (simp add: run_parallel_def demo_worker_def)

text \<open>
  Claim C7, as the code has it. When every exception a worker call raises is an instance
  of \<open>Exception\<close>, \<open>run_parallel\<close> returns and does not raise: each completed call that
  returned a result other than \<open>None\<close> gives one entry of the success list, and each
  item whose call raised or returned \<open>None\<close> is in the failure list, all items being
  processed in the order of completion.
\<close>

theorem run_parallel_classifies:
  assumes "raises_only_Exception worker_fn"
  shows "let outs = fst (run_all worker_fn (map (\<lambda>i. work_items ! i) order) s)
         in map fst outs = map (\<lambda>i. work_items ! i) order
          \<and> fst (run_parallel order work_items worker_fn s) = Inr (successes outs, failures outs)"
  using run_parallel_total [OF assms, of order work_items s]
  by (simp add: run_all_items Let_def)

theorem run_parallel_classifies_witness:
  "raises_only_Exception demo_worker
   \<and> fst (run_parallel [2, 0, 1] [0, 1, 2] demo_worker ()) = Inr ([(2, 4)], [0, 1])"
  using run_parallel_classifies [OF demo_worker_raises, of "[0, 1, 2]" "[2, 0, 1]" "()"]
  by (simp add: demo_worker_raises demo_worker_def Let_def)

text \<open>
  The claim as stated fails for a worker that raises \<open>SystemExit\<close>: \<open>except Exception\<close> does
  not catch it, no list is returned, and the exception leaves \<open>run_parallel\<close>.
\<close>

theorem run_parallel_base_exception_counterexample:
  "fst (run_parallel [0, 1, 2] [0, 1, 2] exiting_worker ()) = Inl SystemExit"
  by (simp add: run_parallel_def exiting_worker_def)

text \<open>
  Claim C10. Whenever \<open>run_parallel\<close> returns its two lists, their lengths add up to the
  number of work items, and the items with an entry in the success list together with the
  items of the failure list are exactly the work items, each as often as it was submitted.
  It returns whenever the worker raises only instances of \<open>Exception\<close>.
\<close>

theorem run_parallel_partition:
  assumes "completion_order order work_items"
  shows "(\<forall>results failed.
            fst (run_parallel order work_items worker_fn s) = Inr (results, failed) \<longrightarrow>
              length results + length failed = length work_items
            \<and> (\<exists>outs. results = successes outs \<and> failed = failures outs
                 \<and> length results = length (success_items outs)
                 \<and> mset (success_items outs) + mset failed = mset work_items))
       \<and> (raises_only_Exception worker_fn \<longrightarrow>
            (\<exists>results failed. fst (run_parallel order work_items worker_fn s) = Inr (results, failed)))"
proof (intro conjI allI impI)
  fix results failed
  let ?outs = "fst (run_all worker_fn (map (\<lambda>i. work_items ! i) order) s)"
  assume "fst (run_parallel order work_items worker_fn s) = Inr (results, failed)"
  then have "collect ?outs [] [] = Inr (results, failed)"
    by (simp add: fst_run_parallel)
  then have r: "results = successes ?outs" and f: "failed = failures ?outs"
    using collect_returns [of ?outs "[]" "[]" results failed] by simp_all
  have m: "mset (map fst ?outs) = mset work_items"
    by (simp only: run_all_items mset_completion_order [OF assms])
  then have "size (mset (map fst ?outs)) = size (mset work_items)"
    by simp
  then have l: "length ?outs = length work_items"
    by simp
  show "length results + length failed = length work_items"
    using r f l length_success_failures [of ?outs] by simp
  show "\<exists>outs. results = successes outs \<and> failed = failures outs
                 \<and> length results = length (success_items outs)
                 \<and> mset (success_items outs) + mset failed = mset work_items"
    using r f m mset_success_failures [of ?outs] length_successes [of ?outs]
    by (intro exI [of _ ?outs]) simp
next
  assume "raises_only_Exception worker_fn"
  from run_parallel_total [OF this, of order work_items s]
  show "\<exists>results failed. fst (run_parallel order work_items worker_fn s) = Inr (results, failed)"
    by simp
qed

theorem run_parallel_partition_witness:
  "completion_order [2, 0, 1] [0 :: int, 1, 2]
   \<and> fst (run_parallel [2, 0, 1] [0, 1, 2] demo_worker ()) = Inr ([(2, 4)], [0, 1])
   \<and> length [(2 :: int, 4 :: int)] + length [0 :: int, 1] = length [0 :: int, 1, 2]
   \<and> raises_only_Exception demo_worker"
proof -
  have c: "completion_order [2, 0, 1] [0 :: int, 1, 2]"
    by (simp add: completion_order_def upt_rec)
  from run_parallel_partition [OF c, of demo_worker "()"] demo_run c demo_worker_raises
  show ?thesis by simp
qed

section \<open>The failure log\<close>

lemma split_on_no_sep: "c \<notin> set s \<Longrightarrow> split_on c s = [s]"
  by (induction s) auto

lemma split_on_append: "c \<notin> set a \<Longrightarrow> split_on c (a @ c # rest) = a # split_on c rest"
  by (induction a) auto

lemma split_on_join:
  assumes "\<forall>p \<in> set (x # rest). CHR '','' \<notin> set p"
  shows "split_on (CHR '','') (join_strings '', '' (x # rest)) = x # map ((#) (CHR '' '')) rest"
  using assms
proof (induction rest arbitrary: x)
  case Nil
  then show ?case
    by (simp add: split_on_no_sep)
next
  case (Cons y ys)
  have nx: "CHR '','' \<notin> set x"
    using Cons.prems by simp
  have "split_on (CHR '','') (x @ CHR '','' # (CHR '' '' # join_strings '', '' (y # ys)))
      = x # split_on (CHR '','') (CHR '' '' # join_strings '', '' (y # ys))"
    using nx by (rule split_on_append)
  then have "split_on (CHR '','') (join_strings '', '' (x # y # ys))
      = x # split_on (CHR '','') (CHR '' '' # join_strings '', '' (y # ys))"
    by simp
  moreover have "split_on (CHR '','') (join_strings '', '' (y # ys)) = y # map ((#) (CHR '' '')) ys"
    using Cons.prems by (intro Cons.IH) simp
  ultimately show ?case
    by simp
qed

lemma is_digit_not_sep: "is_digit c \<Longrightarrow> c \<noteq> CHR '','' \<and> c \<noteq> CHR '' '' \<and> c \<noteq> CHR ''-''"
  by (auto simp add: is_digit_def)

lemma digits10_no_sep: "CHR '','' \<notin> set (digits10 n)"
  using digits10_all_digits [of n] is_digit_not_sep by (auto simp add: list_all_iff)

lemma py_str_int_no_comma: "CHR '','' \<notin> set (py_str_int i)"
  by (simp add: py_str_int_def digits10_no_sep)

lemma py_str_int_nonempty: "py_str_int i \<noteq> []"
  by (simp add: py_str_int_def digits10_nonempty)

lemma hd_py_str_int: "hd (py_str_int i) \<noteq> CHR '' ''"
  using hd_digits10_is_digit [of "nat i"] is_digit_not_sep
  by (auto simp add: py_str_int_def)

lemma dropWhile_py_str_int:
  "dropWhile (\<lambda>c. c = CHR '' '') (py_str_int i) = py_str_int i"
  using py_str_int_nonempty [of i] hd_py_str_int [of i]
  by (cases "py_str_int i") simp_all

lemma read_int_py_str_int: "read_int (py_str_int i) = i"
proof (cases "i < 0")
  case True
  then show ?thesis
    by (simp add: py_str_int_def read_int_def read_decimal_digits10)
next
  case False
  obtain c r where d: "digits10 (nat i) = c # r"
    using digits10_nonempty [of "nat i"] by (cases "digits10 (nat i)") auto
  with hd_digits10_not_minus [of "nat i"] have "c \<noteq> CHR ''-''"
    by simp
  then have "read_int (digits10 (nat i)) = int (read_decimal (digits10 (nat i)))"
    unfolding d by (simp add: read_int_def)
  with False show ?thesis
    by (simp add: py_str_int_def read_decimal_digits10)
qed

lemma join_strings_nonempty: "x \<noteq> [] \<Longrightarrow> join_strings sep (x # rest) \<noteq> []"
  by (cases rest) simp_all

lemma read_json_dump: "read_json_ints (json_dump_ints xs) = Some xs"
proof (cases xs)
  case Nil
  then show ?thesis
    by (simp add: read_json_ints_def json_dump_ints_def)
next
  case (Cons i rest)
  let ?body = "join_strings '', '' (py_str_int i # map py_str_int rest)"
  let ?f = "\<lambda>p. read_int (dropWhile (\<lambda>c. c = CHR '' '') p)"
  have ne: "?body \<noteq> []"
    using py_str_int_nonempty by (rule join_strings_nonempty)
  have sp: "split_on (CHR '','') ?body = py_str_int i # map ((#) (CHR '' '')) (map py_str_int rest)"
    by (rule split_on_join) (auto simp add: py_str_int_no_comma)
  have f1: "?f (py_str_int j) = j" for j
    by (simp add: dropWhile_py_str_int read_int_py_str_int)
  have f2: "?f (CHR '' '' # py_str_int j) = j" for j
    by (simp add: dropWhile_py_str_int read_int_py_str_int)
  have "map ?f (split_on (CHR '','') ?body) = i # rest"
    unfolding sp by (simp add: f1 f2 o_def map_idI)
  moreover have "json_dump_ints xs = CHR ''['' # (?body @ '']'')"
    using Cons by (simp add: json_dump_ints_def)
  ultimately show ?thesis
    using ne Cons by (simp add: read_json_ints_def butlast_append)
qed

text \<open>
  Claim C8. After the batch has returned its lists, \<open>cmd_extract\<close> stores the JSON array of
  the indices of the failed items, in the order of the failure list, in \<open>failed.json\<close>
  under the output directory if that list is not empty, and writes nothing otherwise.
  Reading the array back gives exactly those indices.
\<close>

theorem cmd_extract_failure_log:
  assumes "run_parallel order (build_work cfg) (extract_worker cv) fs = (Inr (results, failed), fs1)"
  shows "cmd_extract cv order cfg fs =
           (Inr (),
            if failed \<noteq> []
            then fs1(os_path_join (cfg_output_dir cfg) ''failed.json''
                       \<mapsto> encode_text (json_dump_ints (map wi_idx failed)))
            else fs1)
       \<and> read_json_ints (json_dump_ints (map wi_idx failed)) = Some (map wi_idx failed)"
proof -
  have "write_failure_log (cfg_output_dir cfg) failed fs1 =
          (if failed \<noteq> []
           then fs1(os_path_join (cfg_output_dir cfg) ''failed.json''
                      \<mapsto> encode_text (json_dump_ints (map wi_idx failed)))
           else fs1)"
    by (simp add: write_failure_log_def write_file_def)
  moreover have "cmd_extract cv order cfg fs
      = (Inr (), write_failure_log (cfg_output_dir cfg) failed fs1)"
    using assms by (simp add: cmd_extract_def)
  ultimately show ?thesis
    by (simp only: read_json_dump simp_thms)
qed

lemma build_work_demo: "build_work (demo_config 0 2) = [demo_item 0 2000, demo_item 1 2000]"
  by (simp add: build_work_def demo_config_def demo_item_def upto.simps)

lemma build_work_empty: "build_work (demo_config 0 0) = []"
  by (simp add: build_work_def demo_config_def)

lemma extract_worker_null:
  "extract_worker null_cv (demo_item i 2000) Map.empty = (Inr (i, None), Map.empty)"
  by (simp add: extract_worker_def cv_imread_def py_floordiv_def demo_item_def Let_def)

lemma demo_batch:
  "run_parallel [1, 0] (build_work (demo_config 0 2)) (extract_worker null_cv) Map.empty
     = (Inr ([], [demo_item 1 2000, demo_item 0 2000]), Map.empty)"
  by (simp add: run_parallel_def build_work_demo extract_worker_null)

lemma empty_batch:
  "run_parallel [] (build_work (demo_config 0 0)) (extract_worker null_cv) Map.empty
     = (Inr ([], []), Map.empty)"
  by (simp add: run_parallel_def build_work_empty)

lemma json_demo: "json_dump_ints [1, 0] = ''[1, 0]''"
  by (simp add: json_dump_ints_def py_str_int_def digits10.simps digit_char_numerals)

theorem cmd_extract_failure_log_witness:
  "cmd_extract null_cv [1, 0] (demo_config 0 2) Map.empty
       = (Inr (), [''out/failed.json'' \<mapsto> encode_text ''[1, 0]''])
   \<and> cmd_extract null_cv [] (demo_config 0 0) Map.empty = (Inr (), Map.empty)"
  using cmd_extract_failure_log [OF demo_batch] cmd_extract_failure_log [OF empty_batch]
  by (simp add: json_demo demo_item_def demo_config_def os_path_join_def)


section \<open>The record codec\<close>

lemma unpack_pack_be32: "unpack_be32 (pack_be32 y) = y"
  unfolding pack_be32_def unpack_be32.simps
proof (rule bit_eqI)
  fix n
  assume "possible_bit TYPE(32 word) n"
  then have n: "n < 32"
    by (simp add: possible_bit_word)
  consider "n < 8" | "8 \<le> n" "n < 16" | "16 \<le> n" "n < 24" | "24 \<le> n"
    by linarith
  then show "bit (push_bit 24 (ucast (ucast (drop_bit 24 y) :: byte))
                  OR push_bit 16 (ucast (ucast (drop_bit 16 y) :: byte))
                  OR push_bit 8 (ucast (ucast (drop_bit 8 y) :: byte))
                  OR ucast (ucast y :: byte) :: 32 word) n = bit y n"
    using n by cases (auto simp add: bit_simps)
qed

lemma length_pack_be32: "length (pack_be32 y) = 4"
  by (simp add: pack_be32_def)

lemma be_uint32_pack: "be_uint32 (pack_be32 y) = unat y"
proof -
  let ?n = "unat y"
  have lt: "?n < 2 ^ 32"
    using unsigned_less [of y] by simp
  have b3: "unat (ucast y :: byte) = ?n mod 2 ^ 8"
    by (simp add: unsigned_ucast_eq take_bit_eq_mod)
  have b2: "unat (ucast (drop_bit 8 y) :: byte) = ?n div 2 ^ 8 mod 2 ^ 8"
    by (simp add: unsigned_ucast_eq take_bit_eq_mod unat_drop_bit_eq drop_bit_eq_div unat_div)
  have b1: "unat (ucast (drop_bit 16 y) :: byte) = ?n div 2 ^ 16 mod 2 ^ 8"
    by (simp add: unsigned_ucast_eq take_bit_eq_mod unat_drop_bit_eq drop_bit_eq_div unat_div)
  have b0: "unat (ucast (drop_bit 24 y) :: byte) = ?n div 2 ^ 24 mod 2 ^ 8"
    by (simp add: unsigned_ucast_eq take_bit_eq_mod unat_drop_bit_eq drop_bit_eq_div unat_div)
  define q1 where "q1 = ?n div 256"
  define q2 where "q2 = q1 div 256"
  define q3 where "q3 = q2 div 256"
  have d16: "?n div 2 ^ 16 = q2"
    unfolding q2_def q1_def by (simp add: div_mult2_eq)
  have d24: "?n div 2 ^ 24 = q3"
    unfolding q3_def q2_def q1_def by (simp add: div_mult2_eq)
  have d8: "?n div 2 ^ 8 = q1"
    unfolding q1_def by simp
  have "q3 < 256"
    using lt unfolding d24 [symmetric] by (simp add: less_mult_imp_div_less)
  then have m3: "q3 mod 256 = q3"
    by simp
  have e0: "?n = q1 * 256 + ?n mod 256"
    unfolding q1_def by simp
  have e1: "q1 = q2 * 256 + q1 mod 256"
    unfolding q2_def by simp
  have e2: "q2 = q3 * 256 + q2 mod 256"
    unfolding q3_def by simp
  have "q3 * 2 ^ 24 + q2 mod 256 * 2 ^ 16 + q1 mod 256 * 2 ^ 8 + ?n mod 256
      = (((q3 * 256 + q2 mod 256) * 256) + q1 mod 256) * 256 + ?n mod 256"
    by (simp add: algebra_simps)
  also have "\<dots> = ?n"
    using e0 e1 e2 by simp
  finally have "?n div 2 ^ 24 mod 2 ^ 8 * 2 ^ 24 + ?n div 2 ^ 16 mod 2 ^ 8 * 2 ^ 16
        + ?n div 2 ^ 8 mod 2 ^ 8 * 2 ^ 8 + ?n mod 2 ^ 8 = ?n"
    unfolding d8 d16 d24 using m3 by simp
  then show ?thesis
    unfolding be_uint32_def pack_be32_def by (simp only: list.case b0 b1 b2 b3)
qed


subsection \<open>Narrowing and widening\<close>

lemma f32_fields_nat:
  "f32_sign y = unat y div 2 ^ 31"
  "f32_exp y = unat y div 2 ^ 23 mod 2 ^ 8"
  "f32_frac y = unat y mod 2 ^ 23"
  unfolding f32_sign_def f32_exp_def f32_frac_def
  by (simp_all add: drop_bit_eq_div take_bit_eq_mod unat_div_distrib unat_mod_distrib)

lemma f64_fields_nat:
  "f64_sign x = unat x div 2 ^ 63"
  "f64_exp x = unat x div 2 ^ 52 mod 2 ^ 11"
  "f64_frac x = unat x mod 2 ^ 52"
  unfolding f64_sign_def f64_exp_def f64_frac_def
  by (simp_all add: drop_bit_eq_div take_bit_eq_mod unat_div_distrib unat_mod_distrib)

lemma f64_frac_less: "f64_frac x < 2 ^ 52"
  by (simp add: f64_fields_nat)

lemma f64_exp_less: "f64_exp x < 2048"
  by (simp add: f64_fields_nat)

lemma f64_sign_less: "f64_sign x < 2"
proof -
  have "unat x < 2 ^ 64"
    using unsigned_less [of x] by simp
  then have "unat x div 2 ^ 63 < 2"
    by (simp add: less_mult_imp_div_less)
  then show ?thesis
    by (simp only: f64_fields_nat)
qed

lemma unat_of_nat_f32: "n < 2 ^ 32 \<Longrightarrow> unat (of_nat n :: f32) = n"
  by (simp add: unat_of_nat)

lemma unat_of_nat_f64: "n < 2 ^ 64 \<Longrightarrow> unat (of_nat n :: f64) = n"
  by (simp add: unat_of_nat)

lemma f32_exp_of_nat:
  assumes "s < 2" "r < 2 ^ 31"
  shows "f32_exp (of_nat (s * 2 ^ 31 + r)) = r div 2 ^ 23"
proof -
  have "s * 2 ^ 31 + r < 2 ^ 32"
    using assms by simp
  then have u: "unat (of_nat (s * 2 ^ 31 + r) :: f32) = s * 2 ^ 31 + r"
    by (rule unat_of_nat_f32)
  have "(s * 2 ^ 8 * 2 ^ 23 + r) div 2 ^ 23 = s * 2 ^ 8 + r div 2 ^ 23"
    by (rule div_mult_self3) simp
  moreover have "s * 2 ^ 31 + r = s * 2 ^ 8 * 2 ^ 23 + r"
    by simp
  ultimately have "(s * 2 ^ 31 + r) div 2 ^ 23 = s * 2 ^ 8 + r div 2 ^ 23"
    by (simp only:)
  moreover have "r div 2 ^ 23 < 2 ^ 8"
    using assms(2) by (simp add: less_mult_imp_div_less)
  ultimately have "(s * 2 ^ 31 + r) div 2 ^ 23 mod 2 ^ 8 = r div 2 ^ 23"
    by simp
  then show ?thesis
    by (simp only: f32_fields_nat u)
qed

lemma round_half_even_le:
  assumes "0 < k" "2 * m < (2 * a + 1) * 2 ^ k"
  shows "round_half_even m k \<le> a"
proof -
  define q where "q = m div 2 ^ k"
  define r where "r = m mod 2 ^ k"
  define h :: nat where "h = 2 ^ (k - 1)"
  have pk: "(2::nat) ^ k = 2 * h"
    using assms(1) unfolding h_def by (cases k) simp_all
  have "m = q * 2 ^ k + r"
    unfolding q_def r_def by (rule div_mult_mod_eq [symmetric])
  then have m: "m = q * (2 * h) + r"
    by (simp only: pk)
  have "r < 2 ^ k"
    unfolding r_def by simp
  then have rl: "r < 2 * h"
    by (simp only: pk)
  have hp: "0 < h"
    unfolding h_def by simp
  have b: "2 * (q * (2 * h) + r) < (2 * a + 1) * (2 * h)"
    using assms(2) unfolding m [symmetric] pk .
  have qa: "q \<le> a"
  proof (rule ccontr)
    assume "\<not> q \<le> a"
    then have "a + 1 \<le> q" by simp
    then have "(a + 1) * (2 * h) \<le> q * (2 * h)"
      by (rule mult_le_mono1)
    then have "(2 * a + 2) * (2 * h) \<le> 2 * (q * (2 * h) + r)"
      by (simp add: algebra_simps)
    with b have "(2 * a + 2) * (2 * h) < (2 * a + 1) * (2 * h)"
      by simp
    then show False
      by simp
  qed
  have rhe: "round_half_even m k = (if h < r \<or> (r = h \<and> odd q) then q + 1 else q)"
    using assms(1) unfolding round_half_even_def q_def r_def h_def by (simp add: Let_def)
  show ?thesis
  proof (cases "q = a")
    case True
    from b True have "2 * r < 2 * h"
      by (simp add: algebra_simps)
    then have "r < h" by simp
    with rhe True show ?thesis by simp
  next
    case False
    with qa have "q + 1 \<le> a" by simp
    with rhe show ?thesis by simp
  qed
qed


lemma round_half_even_small:
  assumes "30 \<le> k" "m < 2 ^ 53"
  shows "round_half_even m k \<le> 2 ^ 23"
proof (rule round_half_even_le)
  show "0 < k"
    using assms(1) by simp
  have "(2::nat) ^ 30 \<le> 2 ^ k"
    using assms(1) by (rule power_increasing) simp
  then have "(2 * 2 ^ 23 + 1) * (2::nat) ^ 30 \<le> (2 * 2 ^ 23 + 1) * 2 ^ k"
    by (rule mult_le_mono2)
  moreover have "2 * m < (2 * 2 ^ 23 + 1) * (2::nat) ^ 30"
    using assms(2) by simp
  ultimately show "2 * m < (2 * 2 ^ 23 + 1) * 2 ^ k"
    by (rule less_le_trans [rotated])
qed

lemma in_float32_range_finite: "in_float32_range x \<Longrightarrow> f64_is_finite x"
  using f64_frac_less [of x] by (simp add: in_float32_range_def f64_is_finite_def)

lemma in_float32_range_packs:
  assumes "in_float32_range x"
  shows "packs_as_f32 x"
proof -
  define e where "e = f64_exp x"
  define f where "f = f64_frac x"
  define s where "s = f64_sign x"
  have fl: "f < 2 ^ 52"
    unfolding f_def by (rule f64_frac_less)
  have sl: "s < 2"
    unfolding s_def by (rule f64_sign_less)
  have rng: "e * 2 ^ 52 + f < 1150 * 2 ^ 52 + (2 ^ 52 - 2 ^ 28)"
    using assms unfolding in_float32_range_def e_def f_def by simp
  have e_le: "e \<le> 1150"
    using rng by simp
  have f_top: "f < 2 ^ 52 - 2 ^ 28" if "e = 1150"
    using rng that by simp
  define r where "r =
    (if 896 < e then (e - 897) * 2 ^ 23 + round_half_even (2 ^ 52 + f) 29
     else if e = 0 then round_half_even f 925
     else round_half_even (2 ^ 52 + f) (926 - e))"
  have r_lt: "r < 255 * 2 ^ 23"
  proof (cases "896 < e")
    case True
    show ?thesis
    proof (cases "e = 1150")
      case e: True
      have "round_half_even (2 ^ 52 + f) 29 \<le> 2 ^ 24 - 1"
        using f_top [OF e] by (intro round_half_even_le) simp_all
      with True e show ?thesis
        unfolding r_def by simp
    next
      case False
      with e_le have e': "e \<le> 1149"
        by simp
      have "round_half_even (2 ^ 52 + f) 29 \<le> 2 ^ 24"
        using fl by (intro round_half_even_le) simp_all
      moreover have "(e - 897) * 2 ^ 23 \<le> 252 * (2::nat) ^ 23"
        using e' by simp
      ultimately show ?thesis
        using True unfolding r_def by simp
    qed
  next
    case False
    have "r \<le> 2 ^ 23"
    proof (cases "e = 0")
      case True
      have "round_half_even f 925 \<le> 2 ^ 23"
        using fl by (intro round_half_even_small) simp_all
      with True show ?thesis
        unfolding r_def by simp
    next
      case nz: False
      have "round_half_even (2 ^ 52 + f) (926 - e) \<le> 2 ^ 23"
        using fl False by (intro round_half_even_small) simp_all
      with False nz show ?thesis
        unfolding r_def by simp
    qed
    then show ?thesis
      by simp
  qed
  define R where "R =
    (if e = 2047 then (if f = 0 then 255 * 2 ^ 23
                       else 255 * 2 ^ 23 + 2 ^ 22 + (f div 2 ^ 29) mod 2 ^ 22)
     else if 896 < e then
       (let t = (e - 897) * 2 ^ 23 + round_half_even (2 ^ 52 + f) 29
        in if 255 * 2 ^ 23 \<le> t then 255 * 2 ^ 23 else t)
     else if e = 0 then round_half_even f 925
     else round_half_even (2 ^ 52 + f) (926 - e))"
  have d0: "double_to_single x = of_nat (s * 2 ^ 31 + R)"
    unfolding double_to_single_def R_def e_def f_def s_def by (simp only: Let_def)
  have "R = r"
  proof (cases "896 < e")
    case True
    with r_lt have "(e - 897) * 2 ^ 23 + round_half_even (2 ^ 52 + f) 29 < 255 * 2 ^ 23"
      unfolding r_def by (simp only: if_True)
    then have "\<not> 255 * 2 ^ 23 \<le> (e - 897) * 2 ^ 23 + round_half_even (2 ^ 52 + f) 29"
      by (simp only: not_le)
    with True e_le show ?thesis
      unfolding R_def r_def Let_def by (simp only: if_True if_False) simp
  next
    case False
    with e_le show ?thesis
      unfolding R_def r_def by simp
  qed
  with d0 have d: "double_to_single x = of_nat (s * 2 ^ 31 + r)"
    by (simp only:)
  have "r < 2 ^ 31"
    using r_lt by simp
  with sl have "f32_exp (of_nat (s * 2 ^ 31 + r)) = r div 2 ^ 23"
    by (rule f32_exp_of_nat)
  moreover have "r div 2 ^ 23 < 255"
    using r_lt by (simp add: less_mult_imp_div_less)
  ultimately have "f32_exp (double_to_single x) \<noteq> 255"
    unfolding d by simp
  then show ?thesis
    by (simp add: packs_as_f32_def f32_is_inf_def)
qed


lemma f32_frac_of_nat:
  assumes "s < 2" "r < 2 ^ 31"
  shows "f32_frac (of_nat (s * 2 ^ 31 + r)) = r mod 2 ^ 23"
proof -
  have "s * 2 ^ 31 + r < 2 ^ 32"
    using assms by simp
  then have u: "unat (of_nat (s * 2 ^ 31 + r) :: f32) = s * 2 ^ 31 + r"
    by (rule unat_of_nat_f32)
  have "(s * 2 ^ 8 * 2 ^ 23 + r) mod 2 ^ 23 = r mod 2 ^ 23"
    by (rule mod_mult_self3)
  moreover have "s * 2 ^ 31 + r = s * 2 ^ 8 * 2 ^ 23 + r"
    by simp
  ultimately have "(s * 2 ^ 31 + r) mod 2 ^ 23 = r mod 2 ^ 23"
    by (simp only:)
  then show ?thesis
    by (simp only: f32_fields_nat u)
qed

lemma round_half_even_ge_div: "m div 2 ^ k \<le> round_half_even m k"
  by (simp add: round_half_even_def Let_def)

lemma round_half_even_up:
  assumes "0 < k" "odd a" "(2 * a + 1) * 2 ^ k \<le> 2 * m"
  shows "a + 1 \<le> round_half_even m k"
proof -
  define q where "q = m div 2 ^ k"
  define r where "r = m mod 2 ^ k"
  define h :: nat where "h = 2 ^ (k - 1)"
  have pk: "(2::nat) ^ k = 2 * h"
    using assms(1) unfolding h_def by (cases k) simp_all
  have "m = q * 2 ^ k + r"
    unfolding q_def r_def by (rule div_mult_mod_eq [symmetric])
  then have m: "m = q * (2 * h) + r"
    by (simp only: pk)
  have "r < 2 ^ k"
    unfolding r_def by simp
  then have rl: "r < 2 * h"
    by (simp only: pk)
  have b: "(2 * a + 1) * (2 * h) \<le> 2 * (q * (2 * h) + r)"
    using assms(3) unfolding m [symmetric] pk .
  have rhe: "round_half_even m k = (if h < r \<or> (r = h \<and> odd q) then q + 1 else q)"
    using assms(1) unfolding round_half_even_def q_def r_def h_def by (simp add: Let_def)
  have aq: "a \<le> q"
  proof (rule ccontr)
    assume "\<not> a \<le> q"
    then have "q + 1 \<le> a" by simp
    then have "(q + 1) * (2 * h) \<le> a * (2 * h)"
      by (rule mult_le_mono1)
    moreover have "2 * (q * (2 * h) + r) < 2 * ((q + 1) * (2 * h))"
      using rl by (simp add: algebra_simps)
    ultimately have "2 * (q * (2 * h) + r) < (2 * a + 1) * (2 * h)"
      by (simp add: algebra_simps)
    with b show False
      by simp
  qed
  show ?thesis
  proof (cases "q = a")
    case True
    from b True have "2 * h \<le> 2 * r"
      by (simp add: algebra_simps)
    then have "h \<le> r" by simp
    then have "h < r \<or> (r = h \<and> odd q)"
      using assms(2) True by auto
    with rhe True show ?thesis by simp
  next
    case False
    with aq have "a + 1 \<le> q" by simp
    with rhe show ?thesis by simp
  qed
qed

lemma finite_out_of_range_overflows:
  assumes "f64_is_finite x" "\<not> in_float32_range x"
  shows "\<not> packs_as_f32 x"
proof -
  define e where "e = f64_exp x"
  define f where "f = f64_frac x"
  define s where "s = f64_sign x"
  have fl: "f < 2 ^ 52"
    unfolding f_def by (rule f64_frac_less)
  have sl: "s < 2"
    unfolding s_def by (rule f64_sign_less)
  have fin: "e \<noteq> 2047"
    using assms(1) unfolding f64_is_finite_def e_def .
  have el: "e < 2048"
    unfolding e_def by (rule f64_exp_less)
  have rng: "1150 * 2 ^ 52 + (2 ^ 52 - 2 ^ 28) \<le> e * 2 ^ 52 + f"
    using assms(2) unfolding in_float32_range_def e_def f_def by simp
  have e_ge: "1150 \<le> e"
    using rng fl by simp
  define t where "t = (e - 897) * 2 ^ 23 + round_half_even (2 ^ 52 + f) 29"
  have t_ge: "255 * 2 ^ 23 \<le> t"
  proof (cases "e = 1150")
    case True
    with rng have "2 ^ 52 - 2 ^ 28 \<le> f"
      by simp
    then have "(2 ^ 24 - 1) + 1 \<le> round_half_even (2 ^ 52 + f) 29"
      by (intro round_half_even_up) simp_all
    with True show ?thesis
      unfolding t_def by simp
  next
    case False
    with e_ge have "254 * (2::nat) ^ 23 \<le> (e - 897) * 2 ^ 23"
      by simp
    moreover have "(2 ^ 52 + f) div 2 ^ 29 \<le> round_half_even (2 ^ 52 + f) 29"
      by (rule round_half_even_ge_div)
    moreover have "(2::nat) ^ 23 \<le> (2 ^ 52 + f) div 2 ^ 29"
      by simp
    ultimately show ?thesis
      unfolding t_def by simp
  qed
  define R where "R =
    (if e = 2047 then (if f = 0 then 255 * 2 ^ 23
                       else 255 * 2 ^ 23 + 2 ^ 22 + (f div 2 ^ 29) mod 2 ^ 22)
     else if 896 < e then
       (let t = (e - 897) * 2 ^ 23 + round_half_even (2 ^ 52 + f) 29
        in if 255 * 2 ^ 23 \<le> t then 255 * 2 ^ 23 else t)
     else if e = 0 then round_half_even f 925
     else round_half_even (2 ^ 52 + f) (926 - e))"
  have d0: "double_to_single x = of_nat (s * 2 ^ 31 + R)"
    unfolding double_to_single_def R_def e_def f_def s_def by (simp only: Let_def)
  have "R = 255 * 2 ^ 23"
    using fin e_ge t_ge unfolding R_def Let_def t_def by simp
  with d0 have d: "double_to_single x = of_nat (s * 2 ^ 31 + 255 * 2 ^ 23)"
    by (simp only:)
  have "f32_exp (of_nat (s * 2 ^ 31 + 255 * 2 ^ 23)) = (255 * 2 ^ 23) div 2 ^ 23"
    using sl by (rule f32_exp_of_nat) simp
  moreover have "f32_frac (of_nat (s * 2 ^ 31 + 255 * 2 ^ 23)) = (255 * 2 ^ 23) mod 2 ^ 23"
    using sl by (rule f32_frac_of_nat) simp
  ultimately have "f32_is_inf (double_to_single x)"
    unfolding d f32_is_inf_def by simp
  moreover have "\<not> f64_is_inf x"
    using fin by (simp add: f64_is_inf_def e_def)
  ultimately show ?thesis
    by (simp add: packs_as_f32_def)
qed

lemma packs_as_f32_iff:
  "packs_as_f32 x \<longleftrightarrow> \<not> f64_is_finite x \<or> in_float32_range x"
proof (cases "f64_is_finite x")
  case True
  then show ?thesis
    using in_float32_range_packs [of x] finite_out_of_range_overflows [of x] by blast
next
  case False
  then have e: "f64_exp x = 2047"
    by (simp add: f64_is_finite_def)
  have "packs_as_f32 x"
  proof (cases "f64_frac x = 0")
    case True
    with e show ?thesis
      by (simp add: packs_as_f32_def f64_is_inf_def)
  next
    case nz: False
    define r where "r = 255 * 2 ^ 23 + 2 ^ 22 + (f64_frac x div 2 ^ 29) mod 2 ^ 22"
    have rl: "r < 2 ^ 31"
    proof -
      have "(f64_frac x div 2 ^ 29) mod 2 ^ 22 < 2 ^ 22"
        by simp
      then show ?thesis
        unfolding r_def by simp
    qed
    have d: "double_to_single x = of_nat (f64_sign x * 2 ^ 31 + r)"
      using e nz unfolding double_to_single_def r_def by (simp only: Let_def) simp
    have "f32_frac (of_nat (f64_sign x * 2 ^ 31 + r)) = r mod 2 ^ 23"
      using f64_sign_less rl by (rule f32_frac_of_nat)
    moreover have "r mod 2 ^ 23 = 2 ^ 22 + (f64_frac x div 2 ^ 29) mod 2 ^ 22"
    proof -
      have "r = 255 * 2 ^ 23 + (2 ^ 22 + (f64_frac x div 2 ^ 29) mod 2 ^ 22)"
        unfolding r_def by simp
      moreover have "(255 * 2 ^ 23 + (2 ^ 22 + (f64_frac x div 2 ^ 29) mod 2 ^ 22)) mod 2 ^ 23
          = (2 ^ 22 + (f64_frac x div 2 ^ 29) mod 2 ^ 22) mod 2 ^ 23"
        by (rule mod_mult_self3)
      moreover have "2 ^ 22 + (f64_frac x div 2 ^ 29) mod 2 ^ 22 < 2 ^ 23"
      proof -
        have "(f64_frac x div 2 ^ 29) mod 2 ^ 22 < 2 ^ 22"
          by simp
        then show ?thesis by simp
      qed
      ultimately show ?thesis
        by simp
    qed
    ultimately have "f32_frac (double_to_single x) \<noteq> 0"
      unfolding d by simp
    then show ?thesis
      by (simp add: packs_as_f32_def f32_is_inf_def)
  qed
  with False show ?thesis
    by simp
qed

lemma round_half_even_exact: "round_half_even (a * 2 ^ k) k = a"
proof (cases "k = 0")
  case True
  then show ?thesis
    by (simp add: round_half_even_def)
next
  case False
  then have "(0::nat) < 2 ^ (k - 1)"
    by simp
  then show ?thesis
    using False by (simp add: round_half_even_def Let_def)
qed

lemma bit_length_bounds:
  "n \<noteq> 0 \<Longrightarrow> 2 ^ (bit_length n - 1) \<le> n \<and> n < 2 ^ bit_length n"
proof (induction n rule: bit_length.induct)
  case (1 n)
  show ?case
  proof (cases "n div 2 = 0")
    case True
    with 1(2) have "n = 1"
      by (simp add: div_eq_0_iff)
    then show ?thesis
      by (simp add: bit_length.simps)
  next
    case False
    with 1 have ih: "2 ^ (bit_length (n div 2) - 1) \<le> n div 2" "n div 2 < 2 ^ bit_length (n div 2)"
      by simp_all
    have bl: "bit_length n = Suc (bit_length (n div 2))"
      using 1(2) by (subst bit_length.simps) simp
    have pos: "0 < bit_length (n div 2)"
      using False by (subst bit_length.simps) simp
    then have p: "(2::nat) ^ bit_length (n div 2) = 2 * 2 ^ (bit_length (n div 2) - 1)"
      by (cases "bit_length (n div 2)") simp_all
    have "2 * 2 ^ (bit_length (n div 2) - 1) \<le> n"
      using ih(1) by simp
    moreover have "n < 2 * 2 ^ bit_length (n div 2)"
      using ih(2) by simp
    ultimately show ?thesis
      unfolding bl using p by simp
  qed
qed

lemma bit_length_le: "n < 2 ^ k \<Longrightarrow> bit_length n \<le> k"
proof (cases "n = 0")
  case True
  then show ?thesis
    by (simp add: bit_length.simps)
next
  case False
  assume nk: "n < 2 ^ k"
  have "2 ^ (bit_length n - 1) \<le> n"
    using bit_length_bounds [OF False] by (rule conjunct1)
  then have "(2::nat) ^ (bit_length n - 1) < 2 ^ k"
    using nk by (rule le_less_trans)
  then have "bit_length n - 1 < k"
    using power_less_imp_less_exp [of 2 "bit_length n - 1" k] by simp
  then show ?thesis
    by simp
qed

lemma f32_decompose:
  "unat y = f32_sign y * 2 ^ 31 + (f32_exp y * 2 ^ 23 + f32_frac y)"
proof -
  let ?n = "unat y"
  define q where "q = ?n div 2 ^ 23"
  define a where "a = q div 2 ^ 8"
  define b where "b = q mod 2 ^ 8"
  define c where "c = ?n mod 2 ^ 23"
  have sgn: "?n div 2 ^ 31 = a"
    unfolding a_def q_def by (simp add: div_mult2_eq)
  have n1: "?n = q * 2 ^ 23 + c"
    unfolding q_def c_def by simp
  have q1: "q = a * 2 ^ 8 + b"
    unfolding a_def b_def by simp
  have "?n = (a * 2 ^ 8 + b) * 2 ^ 23 + c"
    using n1 q1 by (simp only:)
  also have "\<dots> = a * 2 ^ 31 + (b * 2 ^ 23 + c)"
    by (simp add: algebra_simps)
  finally show ?thesis
    unfolding f32_fields_nat sgn q_def [symmetric] b_def [symmetric] c_def [symmetric] .
qed

lemma f32_field_bounds: "f32_sign y < 2" "f32_exp y < 256" "f32_frac y < 2 ^ 23"
proof -
  have "unat y < 2 ^ 32"
    using unsigned_less [of y] by simp
  then have "unat y div 2 ^ 31 < 2"
    by (simp add: less_mult_imp_div_less)
  then show "f32_sign y < 2"
    by (simp only: f32_fields_nat)
  show "f32_exp y < 256" "f32_frac y < 2 ^ 23"
    by (simp_all add: f32_fields_nat)
qed

lemma f64_fields_of_nat:
  assumes "s < 2" "e < 2048" "f < 2 ^ 52"
  shows "f64_sign (of_nat (s * 2 ^ 63 + (e * 2 ^ 52 + f))) = s"
    and "f64_exp (of_nat (s * 2 ^ 63 + (e * 2 ^ 52 + f))) = e"
    and "f64_frac (of_nat (s * 2 ^ 63 + (e * 2 ^ 52 + f))) = f"
proof -
  let ?n = "s * 2 ^ 63 + (e * 2 ^ 52 + f)"
  have ef: "e * 2 ^ 52 + f < 2 ^ 63"
    using assms(2,3) by simp
  then have "?n < 2 ^ 64"
    using assms(1) by simp
  then have u: "unat (of_nat ?n :: f64) = ?n"
    by (rule unat_of_nat_f64)
  have "(s * 2 ^ 63 + (e * 2 ^ 52 + f)) div 2 ^ 63 = s + (e * 2 ^ 52 + f) div 2 ^ 63"
    by (rule div_mult_self3) simp
  then have 1: "?n div 2 ^ 63 = s"
    using ef by simp
  have eq: "?n = (s * 2 ^ 11 + e) * 2 ^ 52 + f"
    by (simp add: algebra_simps)
  have A: "((s * 2 ^ 11 + e) * 2 ^ 52 + f) div 2 ^ 52 = (s * 2 ^ 11 + e) + f div 2 ^ 52"
    by (rule div_mult_self3) simp
  have B: "f div 2 ^ 52 = 0"
    using assms(3) by simp
  have C: "((s * 2 ^ 11 + e) * 2 ^ 52 + f) mod 2 ^ 52 = f mod 2 ^ 52"
    by (rule mod_mult_self3)
  have D: "f mod 2 ^ 52 = f"
    using assms(3) by simp
  have d: "?n div 2 ^ 52 = s * 2 ^ 11 + e"
    by (simp only: eq A B add_0_right)
  have 3: "?n mod 2 ^ 52 = f"
    by (simp only: eq C D)
  have "(s * 2 ^ 11 + e) mod 2 ^ 11 = e mod 2 ^ 11"
    by (rule mod_mult_self3)
  then have 2: "?n div 2 ^ 52 mod 2 ^ 11 = e"
    unfolding d using assms(2) by simp
  show "f64_sign (of_nat ?n) = s" "f64_exp (of_nat ?n) = e" "f64_frac (of_nat ?n) = f"
    by (simp_all only: f64_fields_nat u 1 2 3)
qed

lemma double_to_single_of_fields:
  assumes "s < 2" "e < 2048" "f < 2 ^ 52"
  shows "double_to_single (of_nat (s * 2 ^ 63 + (e * 2 ^ 52 + f))) =
     of_nat (s * 2 ^ 31 +
       (if e = 2047 then (if f = 0 then 255 * 2 ^ 23
                          else 255 * 2 ^ 23 + 2 ^ 22 + (f div 2 ^ 29) mod 2 ^ 22)
        else if 896 < e then
          (let t = (e - 897) * 2 ^ 23 + round_half_even (2 ^ 52 + f) 29
           in if 255 * 2 ^ 23 \<le> t then 255 * 2 ^ 23 else t)
        else if e = 0 then round_half_even f 925
        else round_half_even (2 ^ 52 + f) (926 - e)))"
  unfolding double_to_single_def
  by (simp only: f64_fields_of_nat [OF assms] Let_def)

lemma single_to_double_fields:
  "single_to_double y =
     of_nat (f32_sign y * 2 ^ 63 +
       (if f32_exp y = 255 then 2047 * 2 ^ 52 + f32_frac y * 2 ^ 29
        else if f32_exp y = 0 then
          (if f32_frac y = 0 then 0
           else (bit_length (f32_frac y) + 872) * 2 ^ 52
                + f32_frac y * 2 ^ (53 - bit_length (f32_frac y)))
        else (f32_exp y + 896) * 2 ^ 52 + f32_frac y * 2 ^ 29))"
  unfolding single_to_double_def by (simp only: Let_def)

lemma double_to_single_widened:
  assumes "\<not> f32_is_nan y"
  shows "double_to_single (single_to_double y) = y"
proof -
  define s where "s = f32_sign y"
  define e where "e = f32_exp y"
  define f where "f = f32_frac y"
  have sl: "s < 2" and el: "e < 256" and fl: "f < 2 ^ 23"
    unfolding s_def e_def f_def by (rule f32_field_bounds)+
  have y: "y = of_nat (s * 2 ^ 31 + (e * 2 ^ 23 + f))"
    unfolding s_def e_def f_def using f32_decompose [of y, symmetric] by (simp only: of_nat_unat ucast_id)
  have w: "single_to_double y =
     of_nat (s * 2 ^ 63 +
       (if e = 255 then 2047 * 2 ^ 52 + f * 2 ^ 29
        else if e = 0 then
          (if f = 0 then 0
           else (bit_length f + 872) * 2 ^ 52 + f * 2 ^ (53 - bit_length f))
        else (e + 896) * 2 ^ 52 + f * 2 ^ 29))"
    unfolding s_def e_def f_def by (rule single_to_double_fields)
  have "double_to_single (single_to_double y) = of_nat (s * 2 ^ 31 + (e * 2 ^ 23 + f))"
  proof (cases "e = 255")
    case True
    with assms have f0: "f = 0"
      by (simp add: f32_is_nan_def e_def f_def)
    have "single_to_double y = of_nat (s * 2 ^ 63 + (2047 * 2 ^ 52 + 0))"
      using w True f0 by simp
    then have "double_to_single (single_to_double y) = of_nat (s * 2 ^ 31 + 255 * 2 ^ 23)"
      using double_to_single_of_fields [OF sl, of 2047 0] by simp
    with True f0 show ?thesis
      by simp
  next
    case ne: False
    show ?thesis
    proof (cases "e = 0")
      case False
      with ne el have e1: "1 \<le> e" "e \<le> 254"
        by simp_all
      have fb: "f * 2 ^ 29 < 2 ^ 52"
        using fl by simp
      have eb: "e + 896 < 2048"
        using e1 by simp
      have "single_to_double y = of_nat (s * 2 ^ 63 + ((e + 896) * 2 ^ 52 + f * 2 ^ 29))"
        using w ne False by simp
      then have d: "double_to_single (single_to_double y) =
          of_nat (s * 2 ^ 31 +
            (let t = (e + 896 - 897) * 2 ^ 23 + round_half_even (2 ^ 52 + f * 2 ^ 29) 29
             in if 255 * 2 ^ 23 \<le> t then 255 * 2 ^ 23 else t))"
        using double_to_single_of_fields [OF sl eb fb] e1 by simp
      have "2 ^ 52 + f * 2 ^ 29 = (2 ^ 23 + f) * 2 ^ 29"
        by (simp add: algebra_simps)
      then have r: "round_half_even (2 ^ 52 + f * 2 ^ 29) 29 = 2 ^ 23 + f"
        by (simp only: round_half_even_exact)
      have t: "(e + 896 - 897) * 2 ^ 23 + (2 ^ 23 + f) = e * 2 ^ 23 + f"
        using e1 by (simp add: algebra_simps)
      have lt: "e * 2 ^ 23 + f < 255 * 2 ^ 23"
        using e1 fl by simp
      then have nle: "\<not> 255 * 2 ^ 23 \<le> e * 2 ^ 23 + f"
        by (simp only: not_le)
      show ?thesis
        unfolding d r t Let_def using nle by (simp only: if_False)
    next
      case e0: True
      show ?thesis
      proof (cases "f = 0")
        case True
        have "single_to_double y = of_nat (s * 2 ^ 63 + (0 * 2 ^ 52 + 0))"
          using w e0 True by simp
        then have "double_to_single (single_to_double y) = of_nat (s * 2 ^ 31 + round_half_even 0 925)"
          using double_to_single_of_fields [OF sl, of 0 0] by simp
        moreover have "round_half_even 0 925 = 0"
          using round_half_even_exact [of 0 925] by simp
        ultimately show ?thesis
          using e0 True by simp
      next
        case False
        define b where "b = bit_length f"
        have bb: "2 ^ (b - 1) \<le> f" "f < 2 ^ b"
          using bit_length_bounds [OF False] unfolding b_def by simp_all
        have b23: "b \<le> 23"
          unfolding b_def using fl by (rule bit_length_le)
        have b1: "1 \<le> b"
          unfolding b_def using False by (subst bit_length.simps) simp
        have p1: "(2::nat) ^ (b - 1) * 2 ^ (53 - b) = 2 ^ 52"
          using b1 b23 by (simp add: power_add [symmetric])
        have p2: "(2::nat) ^ b * 2 ^ (53 - b) = 2 ^ 53"
          using b23 by (simp add: power_add [symmetric])
        define m where "m = f * 2 ^ (53 - b)"
        have m_ge: "2 ^ 52 \<le> m"
          unfolding m_def p1 [symmetric] using bb(1) by (rule mult_le_mono1)
        have "f * 2 ^ (53 - b) < 2 ^ b * 2 ^ (53 - b)"
          using bb(2) by simp
        then have m_lt: "m < 2 ^ 53"
          unfolding m_def p2 .
        have Fl: "m - 2 ^ 52 < 2 ^ 52"
          using m_lt by simp
        have Eb: "b + 873 < 2048"
          using b23 by simp
        have "(b + 872) * 2 ^ 52 + m = (b + 873) * 2 ^ 52 + (m - 2 ^ 52)"
          using m_ge by (simp add: algebra_simps)
        then have "single_to_double y = of_nat (s * 2 ^ 63 + ((b + 873) * 2 ^ 52 + (m - 2 ^ 52)))"
          using w e0 False unfolding b_def [symmetric] m_def [symmetric] by simp
        then have d: "double_to_single (single_to_double y) =
            of_nat (s * 2 ^ 31 + round_half_even (2 ^ 52 + (m - 2 ^ 52)) (926 - (b + 873)))"
          using double_to_single_of_fields [OF sl Eb Fl] b23 by simp
        have "2 ^ 52 + (m - 2 ^ 52) = m"
          using m_ge by simp
        moreover have "926 - (b + 873) = 53 - b"
          by simp
        ultimately have "round_half_even (2 ^ 52 + (m - 2 ^ 52)) (926 - (b + 873))
            = round_half_even (f * 2 ^ (53 - b)) (53 - b)"
          unfolding m_def by (simp only:)
        then have "round_half_even (2 ^ 52 + (m - 2 ^ 52)) (926 - (b + 873)) = f"
          by (simp only: round_half_even_exact)
        with d e0 show ?thesis
          by simp
      qed
    qed
  qed
  with y show ?thesis
    by (simp only:)
qed

lemma float32_round_representable:
  "\<not> f32_is_nan y \<Longrightarrow> float32_round (single_to_double y) = single_to_double y"
  by (simp add: float32_round_def double_to_single_widened)

lemma float32_round_idem:
  "\<not> f32_is_nan (double_to_single x) \<Longrightarrow> float32_round (float32_round x) = float32_round x"
  by (simp add: float32_round_def double_to_single_widened)

lemma storable_float_packs: "storable_float x \<longleftrightarrow> packs_as_f32 x"
  by (simp add: storable_float_def packs_as_f32_iff)

subsection \<open>Packing and unpacking\<close>

lemma PyFloat_Pack4_ok: "packs_as_f32 x \<Longrightarrow> PyFloat_Pack4 x = Inr (pack_be32 (double_to_single x))"
  by (auto simp add: PyFloat_Pack4_def packs_as_f32_def Let_def)

lemma PyFloat_Pack4_overflow:
  "\<not> packs_as_f32 x \<Longrightarrow> PyFloat_Pack4 x = Inl (OverflowError ''float too large to pack with f format'')"
  by (auto simp add: PyFloat_Pack4_def packs_as_f32_def Let_def)

lemma struct_pack_5f_ok:
  assumes "packs_as_f32 a" "packs_as_f32 b" "packs_as_f32 c" "packs_as_f32 d" "packs_as_f32 e"
  shows "struct_pack_5f [a, b, c, d, e] =
           Inr (pack_be32 (double_to_single a) @ pack_be32 (double_to_single b)
                @ pack_be32 (double_to_single c) @ pack_be32 (double_to_single d)
                @ pack_be32 (double_to_single e))"
  using assms by (simp add: struct_pack_5f_def PyFloat_Pack4_ok)

lemma field_float_ok: "d k = Some v \<Longrightarrow> py_float v = Inr x \<Longrightarrow> field_float d k = Inr x"
  by (simp add: field_float_def dict_get_def)

lemma numeric_fieldsD:
  assumes "numeric_fields d"
  obtains cx cy major minor angle where
    "field_float d ''center_x'' = Inr cx" "packs_as_f32 cx"
    "field_float d ''center_y'' = Inr cy" "packs_as_f32 cy"
    "field_float d ''major_axis'' = Inr major" "packs_as_f32 major"
    "field_float d ''minor_axis'' = Inr minor" "packs_as_f32 minor"
    "field_float d ''rotation_angle'' = Inr angle" "packs_as_f32 angle"
proof -
  have k: "\<And>k. k \<in> set ELLIPSE_KEYS \<Longrightarrow> \<exists>x. field_float d k = Inr x \<and> packs_as_f32 x"
    using assms unfolding numeric_fields_def storable_float_packs by (metis field_float_ok)
  obtain cx where 1: "field_float d ''center_x'' = Inr cx" "packs_as_f32 cx"
    using k [of "''center_x''"] by (auto simp add: ELLIPSE_KEYS_def)
  obtain cy where 2: "field_float d ''center_y'' = Inr cy" "packs_as_f32 cy"
    using k [of "''center_y''"] by (auto simp add: ELLIPSE_KEYS_def)
  obtain major where 3: "field_float d ''major_axis'' = Inr major" "packs_as_f32 major"
    using k [of "''major_axis''"] by (auto simp add: ELLIPSE_KEYS_def)
  obtain minor where 4: "field_float d ''minor_axis'' = Inr minor" "packs_as_f32 minor"
    using k [of "''minor_axis''"] by (auto simp add: ELLIPSE_KEYS_def)
  obtain angle where 5: "field_float d ''rotation_angle'' = Inr angle" "packs_as_f32 angle"
    using k [of "''rotation_angle''"] by (auto simp add: ELLIPSE_KEYS_def)
  from 1 2 3 4 5 that show thesis by blast
qed

lemma field_single_float: "field_float d k = Inr x \<Longrightarrow> field_single d k = Some (double_to_single x)"
  by (auto simp add: field_single_def field_float_def dict_get_def split: option.splits)

lemma encode_ellipse_ok:
  assumes "numeric_fields d"
  shows "encode_ellipse d =
           Inr (concat (map (\<lambda>k. pack_be32 (the (field_single d k))) ELLIPSE_KEYS))
         \<and> (\<forall>k \<in> set ELLIPSE_KEYS. field_single d k \<noteq> None)"
proof -
  from assms obtain cx cy major minor angle where f:
    "field_float d ''center_x'' = Inr cx" "packs_as_f32 cx"
    "field_float d ''center_y'' = Inr cy" "packs_as_f32 cy"
    "field_float d ''major_axis'' = Inr major" "packs_as_f32 major"
    "field_float d ''minor_axis'' = Inr minor" "packs_as_f32 minor"
    "field_float d ''rotation_angle'' = Inr angle" "packs_as_f32 angle"
    by (rule numeric_fieldsD)
  then show ?thesis
    by (simp add: encode_ellipse_def struct_pack_5f_ok ELLIPSE_KEYS_def field_single_float)
qed

lemma chunks_of_packed:
  "map (\<lambda>i. take 4 (drop (4 * i)
         (pack_be32 a @ pack_be32 b @ pack_be32 c @ pack_be32 d @ pack_be32 e))) [0..<5]
     = [pack_be32 a, pack_be32 b, pack_be32 c, pack_be32 d, pack_be32 e]"
  by (simp add: upt_0_5 pack_be32_def)

lemma float_fieldsD:
  assumes "float_fields d"
  obtains cx cy major minor angle where
    "d ''center_x'' = Some (PyFloat cx)" "packs_as_f32 cx"
    "d ''center_y'' = Some (PyFloat cy)" "packs_as_f32 cy"
    "d ''major_axis'' = Some (PyFloat major)" "packs_as_f32 major"
    "d ''minor_axis'' = Some (PyFloat minor)" "packs_as_f32 minor"
    "d ''rotation_angle'' = Some (PyFloat angle)" "packs_as_f32 angle"
proof -
  have k: "\<And>k. k \<in> set ELLIPSE_KEYS \<Longrightarrow> \<exists>x. d k = Some (PyFloat x) \<and> packs_as_f32 x"
    using assms unfolding float_fields_def storable_float_packs by blast
  obtain cx where 1: "d ''center_x'' = Some (PyFloat cx)" "packs_as_f32 cx"
    using k [of "''center_x''"] by (auto simp add: ELLIPSE_KEYS_def)
  obtain cy where 2: "d ''center_y'' = Some (PyFloat cy)" "packs_as_f32 cy"
    using k [of "''center_y''"] by (auto simp add: ELLIPSE_KEYS_def)
  obtain major where 3: "d ''major_axis'' = Some (PyFloat major)" "packs_as_f32 major"
    using k [of "''major_axis''"] by (auto simp add: ELLIPSE_KEYS_def)
  obtain minor where 4: "d ''minor_axis'' = Some (PyFloat minor)" "packs_as_f32 minor"
    using k [of "''minor_axis''"] by (auto simp add: ELLIPSE_KEYS_def)
  obtain angle where 5: "d ''rotation_angle'' = Some (PyFloat angle)" "packs_as_f32 angle"
    using k [of "''rotation_angle''"] by (auto simp add: ELLIPSE_KEYS_def)
  from 1 2 3 4 5 that show thesis by blast
qed

lemma struct_unpack_packed:
  "struct_unpack_5f (pack_be32 a @ pack_be32 b @ pack_be32 c @ pack_be32 d @ pack_be32 e)
     = Inr [single_to_double a, single_to_double b, single_to_double c,
            single_to_double d, single_to_double e]"
proof -
  let ?bytes = "pack_be32 a @ pack_be32 b @ pack_be32 c @ pack_be32 d @ pack_be32 e"
  have l: "length ?bytes = 20"
    by (simp add: length_pack_be32)
  have "map (\<lambda>i. PyFloat_Unpack4 (take 4 (drop (4 * i) ?bytes))) [0..<5]
      = map PyFloat_Unpack4 (map (\<lambda>i. take 4 (drop (4 * i) ?bytes)) [0..<5])"
    by (simp only: map_map o_def)
  also have "\<dots> = map PyFloat_Unpack4 [pack_be32 a, pack_be32 b, pack_be32 c, pack_be32 d, pack_be32 e]"
    by (simp only: chunks_of_packed)
  also have "\<dots> = [single_to_double a, single_to_double b, single_to_double c,
            single_to_double d, single_to_double e]"
    by (simp add: PyFloat_Unpack4_def unpack_pack_be32)
  finally have m: "map (\<lambda>i. PyFloat_Unpack4 (take 4 (drop (4 * i) ?bytes))) [0..<5]
      = [single_to_double a, single_to_double b, single_to_double c,
            single_to_double d, single_to_double e]" .
  show ?thesis
    unfolding struct_unpack_5f_def m using l by simp
qed

lemmas float_eval =
  double_to_single_def single_to_double_def f64_sign_def f64_exp_def f64_frac_def
  f32_sign_def f32_exp_def f32_frac_def round_half_even_def f64_is_inf_def f32_is_inf_def
  f64_is_finite_def packs_as_f32_def int_to_double_def bit_length.simps Let_def

lemma double_to_single_examples:
  "double_to_single 0x3FB999999999999A = 0x3DCCCCCD"
  "double_to_single 0x4008000000000000 = 0x40400000"
  "double_to_single 0x4059000000000000 = 0x42C80000"
  "double_to_single 0xBFF0000000000000 = 0xBF800000"
  "double_to_single 0 = 0"
  "double_to_single 0x48078287F49C4A1D = 0x7F800000"
  "double_to_single 0x47EFFFFFEFFFFFFF = 0x7F7FFFFF"
  "double_to_single 0x47EFFFFFF0000000 = 0x7F800000"
  by (simp_all add: float_eval)

lemma single_to_double_examples:
  "single_to_double 0x3DCCCCCD = 0x3FB99999A0000000"
  "single_to_double 0x40400000 = 0x4008000000000000"
  "single_to_double 0x42C80000 = 0x4059000000000000"
  "single_to_double 0xBF800000 = 0xBFF0000000000000"
  "single_to_double 0 = 0"
  "single_to_double 1 = 0x36A0000000000000"
  by (simp_all add: float_eval)

lemma int_to_double_examples:
  "int_to_double 3 = Inr 0x4008000000000000"
  "int_to_double (- 1) = Inr 0xBFF0000000000000"
  by (simp_all add: float_eval)

lemma packs_examples:
  "packs_as_f32 0x3FB999999999999A" "packs_as_f32 0x4008000000000000"
  "packs_as_f32 0x4059000000000000" "packs_as_f32 0xBFF0000000000000" "packs_as_f32 0"
  "packs_as_f32 0x47EFFFFFEFFFFFFF"
  "\<not> packs_as_f32 0x48078287F49C4A1D" "\<not> packs_as_f32 0x47EFFFFFF0000000"
  by (simp_all add: packs_as_f32_def double_to_single_examples)
     (simp_all add: f64_is_inf_def f32_is_inf_def f64_exp_def f64_frac_def f32_exp_def f32_frac_def)

lemma numeric_fields_mixed: "numeric_fields mixed_descriptor"
  by (simp add: numeric_fields_def ELLIPSE_KEYS_def mixed_descriptor_def int_to_double_examples
      storable_float_packs packs_examples)

lemma float_fields_demo: "float_fields float_descriptor"
  by (simp add: float_fields_def ELLIPSE_KEYS_def float_descriptor_def storable_float_packs
      packs_examples)

lemma encode_mixed:
  "encode_ellipse mixed_descriptor =
     Inr [0x3D, 0xCC, 0xCC, 0xCD, 0x40, 0x40, 0, 0, 0x42, 0xC8, 0, 0, 0xBF, 0x80, 0, 0, 0, 0, 0, 0]"
  by (simp add: encode_ellipse_def field_float_def dict_get_def mixed_descriptor_def
      int_to_double_examples struct_pack_5f_def PyFloat_Pack4_ok packs_examples
      double_to_single_examples pack_be32_def)

lemma round_demo:
  "round_descriptor float_descriptor =
     [''center_x'' \<mapsto> PyFloat 0x3FB99999A0000000, ''center_y'' \<mapsto> PyFloat 0x4008000000000000,
      ''major_axis'' \<mapsto> PyFloat 0x4059000000000000, ''minor_axis'' \<mapsto> PyFloat 0xBFF0000000000000,
      ''rotation_angle'' \<mapsto> PyFloat 0]"
  by (auto simp add: round_descriptor_def float_descriptor_def ELLIPSE_KEYS_def fun_eq_iff
      float32_round_def double_to_single_examples single_to_double_examples)

lemma single_to_double_inf:
  assumes "f32_is_inf y"
  shows "f64_is_inf (single_to_double y)"
proof -
  from assms have e: "f32_exp y = 255" and f: "f32_frac y = 0"
    by (simp_all add: f32_is_inf_def)
  have "single_to_double y = of_nat (f32_sign y * 2 ^ 63 + (2047 * 2 ^ 52 + 0))"
    unfolding single_to_double_fields e f by simp
  moreover have "f64_exp (of_nat (f32_sign y * 2 ^ 63 + (2047 * 2 ^ 52 + 0))) = 2047"
    using f32_field_bounds(1) by (rule f64_fields_of_nat) simp_all
  moreover have "f64_frac (of_nat (f32_sign y * 2 ^ 63 + (2047 * 2 ^ 52 + 0))) = 0"
    using f32_field_bounds(1) by (rule f64_fields_of_nat) simp_all
  ultimately show ?thesis
    by (simp only: f64_is_inf_def)
qed

lemma single_to_double_storable:
  assumes "\<not> f32_is_nan y"
  shows "storable_float (single_to_double y)"
proof (cases "f32_is_inf y")
  case True
  then show ?thesis
    by (simp add: storable_float_packs packs_as_f32_def single_to_double_inf)
next
  case False
  then show ?thesis
    using assms by (simp add: storable_float_packs packs_as_f32_def double_to_single_widened)
qed

lemma float32_fields_float: "float32_fields d \<Longrightarrow> float_fields d"
  unfolding float32_fields_def float_fields_def
  by (metis single_to_double_storable)

lemma round_descriptor_exact:
  assumes "float32_fields d"
  shows "round_descriptor d = d |` set ELLIPSE_KEYS"
proof (rule ext)
  fix k
  show "round_descriptor d k = (d |` set ELLIPSE_KEYS) k"
  proof (cases "k \<in> set ELLIPSE_KEYS")
    case True
    with assms obtain y where "d k = Some (PyFloat (single_to_double y))" "\<not> f32_is_nan y"
      unfolding float32_fields_def by blast
    with True show ?thesis
      by (simp add: round_descriptor_def float32_round_representable)
  next
    case False
    then show ?thesis
      by (simp add: round_descriptor_def)
  qed
qed

lemma float32_fields_single: "float32_fields single_descriptor"
proof -
  have "\<exists>y. (0x3FB99999A0000000 :: f64) = single_to_double y \<and> \<not> f32_is_nan y"
    by (rule exI [of _ "0x3DCCCCCD"]) (simp add: single_to_double_examples f32_is_nan_def f32_exp_def)
  moreover have "\<exists>y. (0x4008000000000000 :: f64) = single_to_double y \<and> \<not> f32_is_nan y"
    by (rule exI [of _ "0x40400000"]) (simp add: single_to_double_examples f32_is_nan_def f32_exp_def)
  moreover have "\<exists>y. (0x4059000000000000 :: f64) = single_to_double y \<and> \<not> f32_is_nan y"
    by (rule exI [of _ "0x42C80000"]) (simp add: single_to_double_examples f32_is_nan_def f32_exp_def)
  moreover have "\<exists>y. (0xBFF0000000000000 :: f64) = single_to_double y \<and> \<not> f32_is_nan y"
    by (rule exI [of _ "0xBF800000"]) (simp add: single_to_double_examples f32_is_nan_def f32_exp_def)
  moreover have "\<exists>y. (0 :: f64) = single_to_double y \<and> \<not> f32_is_nan y"
    by (rule exI [of _ 0]) (simp add: single_to_double_examples f32_is_nan_def f32_exp_def)
  ultimately show ?thesis
    by (simp add: float32_fields_def ELLIPSE_KEYS_def single_descriptor_def)
qed

lemma restrict_single: "single_descriptor |` set ELLIPSE_KEYS = single_descriptor"
  by (auto simp add: restrict_map_def single_descriptor_def ELLIPSE_KEYS_def fun_eq_iff)

lemma encode_ellipse_returns:
  assumes "encode_ellipse d = Inr bytes"
  shows "numeric_fields d"
proof -
  from assms obtain cx cy major minor angle where
    f: "field_float d ''center_x'' = Inr cx" "field_float d ''center_y'' = Inr cy"
       "field_float d ''major_axis'' = Inr major" "field_float d ''minor_axis'' = Inr minor"
       "field_float d ''rotation_angle'' = Inr angle"
    and p: "struct_pack_5f [cx, cy, major, minor, angle] = Inr bytes"
    unfolding encode_ellipse_def bind_exc_def by (auto split: sum.splits)
  have ok: "packs_as_f32 x" if "PyFloat_Pack4 x = Inr b" for x b
    using that PyFloat_Pack4_overflow [of x] by (cases "packs_as_f32 x") simp_all
  from p have "packs_as_f32 cx \<and> packs_as_f32 cy \<and> packs_as_f32 major \<and> packs_as_f32 minor
      \<and> packs_as_f32 angle"
    unfolding struct_pack_5f_def by (auto simp add: bind_exc_def split: sum.splits dest: ok)
  moreover have "\<exists>v. d k = Some v \<and> py_float v = Inr x" if "field_float d k = Inr x" for k x
    using that unfolding field_float_def dict_get_def bind_exc_def
    by (auto split: option.splits sum.splits)
  ultimately show ?thesis
    using f unfolding numeric_fields_def storable_float_packs ELLIPSE_KEYS_def
    by (simp) blast
qed

lemma encode_ellipse_returns_iff:
  "(\<exists>bytes. encode_ellipse d = Inr bytes) \<longleftrightarrow> numeric_fields d"
  using encode_ellipse_ok [of d] encode_ellipse_returns [of d] by blast

text \<open>
  Claim C1, as the code has it. For every descriptor whose five fields are present and
  numeric, with values that are infinities, NaNs or finite with a magnitude below
  \<open>2^128 - 2^103\<close>, the packing step of \<open>save_ellipse\<close> returns exactly 20 bytes: for each of
  the five keys, in the order \<open>center_x, center_y, major_axis, minor_axis, rotation_angle\<close>,
  four bytes that read most significant byte first are the binary32 pattern of the field.
  By \<open>encode_ellipse_returns_iff\<close> these are all the descriptors it returns bytes for.
\<close>

theorem encode_ellipse_layout:
  assumes "numeric_fields d"
  shows "\<exists>bytes. encode_ellipse d = Inr bytes \<and> length bytes = 20
           \<and> (\<forall>i < 5. \<exists>y. field_single d (ELLIPSE_KEYS ! i) = Some y
                  \<and> be_uint32 (take 4 (drop (4 * i) bytes)) = unat y)"
proof -
  from assms obtain cx cy major minor angle where f:
    "field_float d ''center_x'' = Inr cx" "packs_as_f32 cx"
    "field_float d ''center_y'' = Inr cy" "packs_as_f32 cy"
    "field_float d ''major_axis'' = Inr major" "packs_as_f32 major"
    "field_float d ''minor_axis'' = Inr minor" "packs_as_f32 minor"
    "field_float d ''rotation_angle'' = Inr angle" "packs_as_f32 angle"
    by (rule numeric_fieldsD)
  let ?ys = "[double_to_single cx, double_to_single cy, double_to_single major,
              double_to_single minor, double_to_single angle]"
  let ?bytes = "pack_be32 (double_to_single cx) @ pack_be32 (double_to_single cy)
                @ pack_be32 (double_to_single major) @ pack_be32 (double_to_single minor)
                @ pack_be32 (double_to_single angle)"
  have e: "encode_ellipse d = Inr ?bytes"
    using f by (simp add: encode_ellipse_def struct_pack_5f_ok)
  have l: "length ?bytes = 20"
    by (simp add: length_pack_be32)
  have c: "take 4 (drop (4 * 0) ?bytes) = pack_be32 (double_to_single cx)"
    "take 4 (drop (4 * 1) ?bytes) = pack_be32 (double_to_single cy)"
    "take 4 (drop (4 * 2) ?bytes) = pack_be32 (double_to_single major)"
    "take 4 (drop (4 * 3) ?bytes) = pack_be32 (double_to_single minor)"
    "take 4 (drop (4 * 4) ?bytes) = pack_be32 (double_to_single angle)"
    by (simp_all add: pack_be32_def)
  have s: "field_single d (ELLIPSE_KEYS ! 0) = Some (double_to_single cx)"
    "field_single d (ELLIPSE_KEYS ! 1) = Some (double_to_single cy)"
    "field_single d (ELLIPSE_KEYS ! 2) = Some (double_to_single major)"
    "field_single d (ELLIPSE_KEYS ! 3) = Some (double_to_single minor)"
    "field_single d (ELLIPSE_KEYS ! 4) = Some (double_to_single angle)"
    using f by (simp_all add: ELLIPSE_KEYS_def field_single_float)
  have "\<exists>y. field_single d (ELLIPSE_KEYS ! i) = Some y
             \<and> be_uint32 (take 4 (drop (4 * i) ?bytes)) = unat y" if "i < 5" for i
  proof -
    from that consider "i = 0" | "i = 1" | "i = 2" | "i = 3" | "i = 4"
      by linarith
    then show ?thesis
    proof cases
      case 1
      then show ?thesis by (simp only: c s be_uint32_pack) simp
    next
      case 2
      then show ?thesis by (simp only: c s be_uint32_pack) simp
    next
      case 3
      then show ?thesis by (simp only: c s be_uint32_pack) simp
    next
      case 4
      then show ?thesis by (simp only: c s be_uint32_pack) simp
    next
      case 5
      then show ?thesis by (simp only: c s be_uint32_pack) simp
    qed
  qed
  with e l show ?thesis
    by blast
qed


theorem encode_ellipse_layout_witness:
  "numeric_fields mixed_descriptor
   \<and> (\<exists>bytes. encode_ellipse mixed_descriptor = Inr bytes \<and> length bytes = 20
        \<and> (\<forall>i < 5. \<exists>y. field_single mixed_descriptor (ELLIPSE_KEYS ! i) = Some y
               \<and> be_uint32 (take 4 (drop (4 * i) bytes)) = unat y))"
  using encode_ellipse_layout [OF numeric_fields_mixed] numeric_fields_mixed by simp

text \<open>
  The claim as stated fails for a finite field beyond the binary32 range: with
  \<open>center_x = 1e39\<close> the packing step raises \<open>OverflowError\<close> and produces no bytes.
\<close>

theorem encode_ellipse_overflow_counterexample:
  "dom huge_descriptor = set ELLIPSE_KEYS
   \<and> huge_descriptor ''center_x'' = Some (PyFloat 0x48078287F49C4A1D)
   \<and> f64_is_finite 0x48078287F49C4A1D
   \<and> encode_ellipse huge_descriptor = Inl (OverflowError ''float too large to pack with f format'')"
  by (simp add: huge_descriptor_def ELLIPSE_KEYS_def encode_ellipse_def field_float_def
      dict_get_def struct_pack_5f_def PyFloat_Pack4_overflow packs_examples
      f64_is_finite_def f64_exp_def insert_commute)

text \<open>
  Claim C2, as the code has it. For every descriptor whose five fields are floats that are
  infinities, NaNs or finite with a magnitude below \<open>2^128 - 2^103\<close>, saving it and loading
  the file again gives the descriptor with each field rounded to single precision; a
  descriptor whose fields are binary32 values already comes back unchanged.
\<close>

theorem save_load_round_trip:
  assumes "float_fields d"
  shows "fst (save_ellipse p d fs) = Inr ()
       \<and> load_ellipse p (snd (save_ellipse p d fs)) = Inr (round_descriptor d)
       \<and> (float32_fields d \<longrightarrow> round_descriptor d = d |` set ELLIPSE_KEYS)"
proof -
  from assms obtain cx cy major minor angle where f:
    "d ''center_x'' = Some (PyFloat cx)" "packs_as_f32 cx"
    "d ''center_y'' = Some (PyFloat cy)" "packs_as_f32 cy"
    "d ''major_axis'' = Some (PyFloat major)" "packs_as_f32 major"
    "d ''minor_axis'' = Some (PyFloat minor)" "packs_as_f32 minor"
    "d ''rotation_angle'' = Some (PyFloat angle)" "packs_as_f32 angle"
    by (rule float_fieldsD)
  let ?bytes = "pack_be32 (double_to_single cx) @ pack_be32 (double_to_single cy)
                @ pack_be32 (double_to_single major) @ pack_be32 (double_to_single minor)
                @ pack_be32 (double_to_single angle)"
  have e: "encode_ellipse d = Inr ?bytes"
    using f by (simp add: encode_ellipse_def struct_pack_5f_ok field_float_def dict_get_def)
  then have sv: "save_ellipse p d fs = (Inr (), fs(p \<mapsto> ?bytes))"
    by (simp add: save_ellipse_def write_file_def)
  have t: "take 20 ?bytes = ?bytes"
    by (simp add: length_pack_be32)
  have ld: "load_ellipse p (fs(p \<mapsto> ?bytes))
      = Inr (map_of (zip ELLIPSE_KEYS (map PyFloat
              [float32_round cx, float32_round cy, float32_round major,
               float32_round minor, float32_round angle])))"
    unfolding load_ellipse_def open_read_def
    by (simp only: fun_upd_same option.case bind_exc_simps t struct_unpack_packed float32_round_def)
  have "map_of (zip ELLIPSE_KEYS (map PyFloat
              [float32_round cx, float32_round cy, float32_round major,
               float32_round minor, float32_round angle])) = round_descriptor d"
    using f by (auto simp add: round_descriptor_def ELLIPSE_KEYS_def fun_eq_iff)
  with sv ld show ?thesis
    by (simp add: round_descriptor_exact)
qed


theorem save_load_round_trip_witness:
  "float_fields float_descriptor
   \<and> fst (save_ellipse ''r.bin'' float_descriptor Map.empty) = Inr ()
   \<and> load_ellipse ''r.bin'' (snd (save_ellipse ''r.bin'' float_descriptor Map.empty))
       = Inr single_descriptor
   \<and> float32_fields single_descriptor
   \<and> load_ellipse ''r.bin'' (snd (save_ellipse ''r.bin'' single_descriptor Map.empty))
       = Inr single_descriptor"
proof -
  note a = save_load_round_trip [OF float_fields_demo, of "''r.bin''" Map.empty]
  note b = save_load_round_trip [OF float32_fields_float [OF float32_fields_single],
      of "''r.bin''" Map.empty]
  have r1: "round_descriptor float_descriptor = single_descriptor"
    by (simp only: round_demo single_descriptor_def)
  from b float32_fields_single
  have "round_descriptor single_descriptor = single_descriptor |` set ELLIPSE_KEYS"
    by blast
  then have r2: "round_descriptor single_descriptor = single_descriptor"
    by (simp only: restrict_single)
  from a have a1: "fst (save_ellipse ''r.bin'' float_descriptor Map.empty) = Inr ()"
    and a2: "load_ellipse ''r.bin'' (snd (save_ellipse ''r.bin'' float_descriptor Map.empty))
               = Inr (round_descriptor float_descriptor)"
    by blast+
  from b have b2: "load_ellipse ''r.bin'' (snd (save_ellipse ''r.bin'' single_descriptor Map.empty))
               = Inr (round_descriptor single_descriptor)"
    by blast
  from a1 a2 [unfolded r1] b2 [unfolded r2] float_fields_demo float32_fields_single
  show ?thesis
    by blast
qed

text \<open>
  The claim as stated fails for five finite floats one of which is \<open>1e39\<close>: saving raises
  \<open>OverflowError\<close>, no file is written, and there is nothing to decode.
\<close>

theorem save_load_overflow_counterexample:
  "f64_is_finite 0x48078287F49C4A1D \<and> f64_is_finite 0
   \<and> save_ellipse ''r.bin'' huge_descriptor Map.empty
        = (Inl (OverflowError ''float too large to pack with f format''), Map.empty)
   \<and> load_ellipse ''r.bin'' (snd (save_ellipse ''r.bin'' huge_descriptor Map.empty))
        = Inl (FileNotFoundError ''r.bin'')"
  by (simp add: huge_descriptor_def save_ellipse_def encode_ellipse_def field_float_def
      dict_get_def struct_pack_5f_def PyFloat_Pack4_overflow packs_examples
      f64_is_finite_def f64_exp_def load_ellipse_def open_read_def)


section \<open>A run of the worker on the success path\<close>

text \<open>
  With an image and a mask on disk and a contour of six points, the worker writes the
  20-byte record and returns the descriptor with the pixel count.
\<close>

lemmas int_eval = float_to_int_def py_round_def py_int_of_float_def f64_mantissa_def float_half_def
  f64_is_nan_def f64_is_inf_def f64_exp_def f64_frac_def f64_sign_def round_half_even_def Let_def

lemma float_op_examples:
  "float_half 0x4014000000000000 = 0x4004000000000000"
  "float_half 0x0000000000000003 = 0x0000000000000002"
  "float_half 0x0000000000000001 = 0"
  "float_half 0x0010000000000000 = 0x0008000000000000"
  "float_half 0x0020000000000000 = 0x0010000000000000"
  "py_round 0x4004000000000000 = Inr 2"
  "py_round 0x400C000000000000 = Inr 4"
  "py_round 0xC004000000000000 = Inr (- 2)"
  "py_int_of_float 0xC00599999999999A = Inr (- 2)"
  "py_int_of_float 0x4490F0CF064DD592 = Inr 20000000000000000000000"
  "py_round 0 = Inr 0"
  "py_round 0x7FF8000000000000 = Inl (ValueError ''cannot convert float NaN to integer'')"
  "py_int_of_float 0xFFF0000000000000 = Inl (OverflowError ''cannot convert float infinity to integer'')"
  by (simp_all add: int_eval)

lemma fit_hexa: "fit_ellipse (stub_cv [hexa]) blank_image = Inr (0, 0, 0, 0, 0)"
  by (simp add: fit_ellipse_def py_max_key_def hexa_def Let_def zero_rect_def)

lemma encode_zero:
  "encode_ellipse [''center_x'' \<mapsto> PyFloat 0, ''center_y'' \<mapsto> PyFloat 0,
       ''major_axis'' \<mapsto> PyFloat 0, ''minor_axis'' \<mapsto> PyFloat 0,
       ''rotation_angle'' \<mapsto> PyFloat 0] = Inr (replicate 20 0)"
  by (simp add: encode_ellipse_def field_float_def dict_get_def struct_pack_5f_def
      PyFloat_Pack4_ok packs_examples double_to_single_examples pack_be32_def replicate_num)

lemma extract_worker_success_example:
  "extract_worker (stub_cv [hexa]) (demo_item 7 2000) demo_files =
     (Inr (7, Some [''center_x'' \<mapsto> PyFloat 0, ''center_y'' \<mapsto> PyFloat 0,
                    ''major_axis'' \<mapsto> PyFloat 0, ''minor_axis'' \<mapsto> PyFloat 0,
                    ''rotation_angle'' \<mapsto> PyFloat 0, ''num_pixels'' \<mapsto> PyInt 0]),
      demo_files(''out/00007.bin'' \<mapsto> replicate 20 0))"
proof -
  have p: "os_path_join ''img'' (py_str_int 7 @ ''.jpg'') = ''img/7.jpg''"
    "os_path_join ''mask'' (py_str_int 0) = ''mask/0''"
    "os_path_join ''mask/0'' ''00007_skin.png'' = ''mask/0/00007_skin.png''"
    by (simp_all add: os_path_join_def py_str_int_7 py_str_int_0)
  have m: "build_face_mask (stub_cv [hexa]) demo_files ''mask/0'' ''00007''
             (Some (img_w blank_image, img_h blank_image)) = Inr blank_image"
    by (simp add: build_face_mask_def p os_path_exists_def cv_imread_def demo_files_def stub_cv_def
        Let_def)
  have i: "cv_imread (stub_cv [hexa]) demo_files ''img/7.jpg'' IMREAD_COLOR = Some blank_image"
    by (simp add: cv_imread_def demo_files_def stub_cv_def)
  have r: "filled_ellipse_mask (stub_cv [hexa]) (img_h blank_image) (img_w blank_image) 0 0 0 0 0
             = Inr (np_zeros 1 1)"
    by (simp add: filled_ellipse_mask_def float_op_examples stub_cv_def int_eval blank_image_def)
  have c: "count_positive (np_zeros (Suc 0) (Suc 0)) = 0"
    by (simp add: count_positive_def np_zeros_def)
  show ?thesis
    by (simp add: extract_worker_def demo_item_def py_floordiv_def format_7 p i m fit_hexa
        save_ellipse_def encode_zero write_file_def annotation_path_def r c
        optional_outputs_def Let_def)
qed


end
